theory Spec2Isabelle
  imports Main "HOL-Library.AList" "HOL-Library.Char_ord" "HOL-Library.List_Lexorder"
    "HOL-Library.Signed_Division" "HOL-Library.Word"
begin

section \<open>Go strings\<close>

text \<open>
  A Go string is a sequence of bytes; it is modelled as a \<^typ>\<open>string\<close> (a list of
  8-bit characters), so that \<open>length\<close> is Go's \<open>len\<close>.  Every separator the program
  passes to \<open>strings.Split\<close>, \<open>strings.LastIndex\<close> and \<open>strings.Contains\<close> is a
  one-byte literal, so these functions take the separator as a \<^typ>\<open>char\<close>.
\<close>

text \<open>\<open>strings.Split(s, sep)\<close>: the pieces of \<open>s\<close> between the occurrences of \<open>sep\<close>;
  a string without the separator (also the empty one) gives one piece.\<close>

fun Split :: "string \<Rightarrow> char \<Rightarrow> string list" where
  "Split [] sep = [[]]"
| "Split (x # xs) sep =
     (if x = sep then [] # Split xs sep
      else (case Split xs sep of [] \<Rightarrow> [[x]] | t # ts \<Rightarrow> (x # t) # ts))"

text \<open>\<open>strings.Join(elems, sep)\<close>.\<close>

fun Join :: "string list \<Rightarrow> string \<Rightarrow> string" where
  "Join [] sep = []"
| "Join [x] sep = x"
| "Join (x # y # ys) sep = x @ sep @ Join (y # ys) sep"

text \<open>\<open>strings.LastIndex(s, sep)\<close>: the position of the last occurrence, \<open>None\<close> for
  Go's \<open>-1\<close>.\<close>

fun LastIndex :: "string \<Rightarrow> char \<Rightarrow> nat option" where
  "LastIndex [] sep = None"
| "LastIndex (x # xs) sep =
     (case LastIndex xs sep of
        Some i \<Rightarrow> Some (Suc i)
      | None \<Rightarrow> (if x = sep then Some 0 else None))"

text \<open>\<open>strings.Contains(s, sep)\<close>.\<close>

definition Contains :: "string \<Rightarrow> char \<Rightarrow> bool" where
  "Contains s sep = (sep \<in> set s)"

text \<open>Indexing a slice, \<open>xs[i]\<close>, with a Go \<open>int\<close>: out of range is a run-time panic,
  here \<open>None\<close>.\<close>

definition index :: "'a list \<Rightarrow> int \<Rightarrow> 'a option" where
  "index xs i = (if 0 \<le> i \<and> i < int (length xs) then Some (xs ! nat i) else None)"

section \<open>The variable extractor (package parser)\<close>

text \<open>The types of \<open>types.go\<close>.  Of a \<open>Service\<close> the program reads three fields only; the
  others are carried along and live in the extension part of the record.  A Go map is a
  list of key-value pairs with distinct keys, in the order in which this run of the
  program iterates over it.\<close>

record Service =
  Image :: string
  ContainerName :: string
  Ports :: "string list"

record Variables =
  ServiceName :: string
  ContainerName :: string
  FirstPort :: string
  ImageOrg :: string
  ImageName :: string

definition no_Variables :: Variables where
  "no_Variables = \<lparr>ServiceName = [], ContainerName = [], FirstPort = [],
     ImageOrg = [], ImageName = []\<rparr>"

definition no_Service :: Service where
  "no_Service = \<lparr>Image = [], ContainerName = [], Ports = []\<rparr>"

text \<open>\<open>extractHostPort\<close>; \<open>None\<close> stands for a run-time panic.\<close>

definition extractHostPort :: "string \<Rightarrow> string option" where
  "extractHostPort portMapping =
     (case index (Split portMapping CHR ''/'') 0 of
        None \<Rightarrow> None
      | Some portMapping' \<Rightarrow>
          (let parts = Split portMapping' CHR '':'' in
             if length parts = 1 then index parts 0
             else if length parts = 2 then index parts 0
             else if length parts = 3 then index parts 1
             else Some []))"

text \<open>\<open>extractImageInfo\<close>: organisation and name of an image reference.\<close>

definition extractImageInfo :: "string \<Rightarrow> (string \<times> string) option" where
  "extractImageInfo img =
     (if img = [] then Some ([], [])
      else
        let img' =
              (case LastIndex img CHR '':'' of
                 Some idx \<Rightarrow>
                   if \<not> Contains (drop idx img) CHR ''/'' then take idx img else img
               | None \<Rightarrow> img);
            parts = Split img' CHR ''/''
        in
          if length parts = 1 then
            (case index parts 0 of None \<Rightarrow> None | Some p \<Rightarrow> Some (p, p))
          else if length parts = 2 then
            (case index parts 0 of None \<Rightarrow> None
             | Some p \<Rightarrow> (case index parts 1 of None \<Rightarrow> None | Some q \<Rightarrow> Some (p, q)))
          else
            (case index parts (int (length parts) - 2) of None \<Rightarrow> None
             | Some p \<Rightarrow>
                 (case index parts (int (length parts) - 1) of None \<Rightarrow> None
                  | Some q \<Rightarrow> Some (p, q))))"

text \<open>\<open>ExtractVariables\<close>, on the \<open>services\<close> map of the compose file.  The names are
  collected in the iteration order of the map and sorted with \<open>sort.Strings\<close> (the
  byte-wise lexicographic order of Go strings); a lookup of an absent key gives the zero
  \<open>Service\<close>.\<close>

definition ExtractVariables :: "(string \<times> Service) list \<Rightarrow> Variables option" where
  "ExtractVariables services =
     (if length services = 0 then Some no_Variables
      else
        let serviceNames = sort (map fst services) in
        case index serviceNames 0 of
          None \<Rightarrow> None
        | Some firstServiceName \<Rightarrow>
            let firstService =
                  (case map_of services firstServiceName of
                     None \<Rightarrow> no_Service | Some s \<Rightarrow> s);
                containerName =
                  (if Service.ContainerName firstService \<noteq> []
                   then Service.ContainerName firstService else firstServiceName)
            in
              case (if length (Ports firstService) > 0
                    then (case index (Ports firstService) 0 of
                            None \<Rightarrow> None | Some p \<Rightarrow> extractHostPort p)
                    else Some []) of
                None \<Rightarrow> None
              | Some firstPort \<Rightarrow>
                  (case extractImageInfo (Image firstService) of
                     None \<Rightarrow> None
                   | Some (org, name) \<Rightarrow>
                       Some \<lparr>ServiceName = firstServiceName, ContainerName = containerName,
                         FirstPort = firstPort, ImageOrg = org, ImageName = name\<rparr>))"

text \<open>The host-port rule in the words of the specification: the text after the last
  \<open>/\<close> is removed (with that \<open>/\<close>), the rest is split on \<open>:\<close>.\<close>

definition strip_after_last_slash :: "string \<Rightarrow> string" where
  "strip_after_last_slash s =
     (if CHR ''/'' \<in> set s then rev (tl (dropWhile (\<lambda>c. c \<noteq> CHR ''/'') (rev s))) else s)"

definition extractHostPort_spec :: "string \<Rightarrow> string" where
  "extractHostPort_spec portMapping =
     (let parts = Split (strip_after_last_slash portMapping) CHR '':'' in
        if length parts = 1 then parts ! 0
        else if length parts = 2 then parts ! 0
        else if length parts = 3 then parts ! 1
        else [])"

section \<open>UTF-8 as the Go libraries read it\<close>

text \<open>The table \<open>first\<close> of package \<open>unicode/utf8\<close>: for the leading byte of a multi-byte
  sequence, the length of the sequence and the range accepted for its second byte; \<open>None\<close>
  for an ASCII byte and for a byte that cannot start a sequence.\<close>

definition first :: "nat \<Rightarrow> (nat \<times> nat \<times> nat) option" where
  "first b =
     (if 0xC2 \<le> b \<and> b \<le> 0xDF then Some (2, 0x80, 0xBF)
      else if b = 0xE0 then Some (3, 0xA0, 0xBF)
      else if 0xE1 \<le> b \<and> b \<le> 0xEC then Some (3, 0x80, 0xBF)
      else if b = 0xED then Some (3, 0x80, 0x9F)
      else if 0xEE \<le> b \<and> b \<le> 0xEF then Some (3, 0x80, 0xBF)
      else if b = 0xF0 then Some (4, 0x90, 0xBF)
      else if 0xF1 \<le> b \<and> b \<le> 0xF3 then Some (4, 0x80, 0xBF)
      else if b = 0xF4 then Some (4, 0x80, 0x8F)
      else None)"

definition in_range :: "char \<Rightarrow> nat \<Rightarrow> nat \<Rightarrow> bool" where
  "in_range c lo hi = (lo \<le> of_char c \<and> of_char c \<le> (hi::nat))"

text \<open>The number of bytes of the first rune of a string, as \<open>utf8.DecodeRuneInString\<close> and
  \<open>utf8.RuneCountInString\<close> compute it: an invalid or truncated sequence counts for one
  byte.\<close>

definition rune_size :: "string \<Rightarrow> nat" where
  "rune_size s =
     (case s of
        [] \<Rightarrow> 0
      | c # cs \<Rightarrow>
          (case first (of_char c) of
             None \<Rightarrow> 1
           | Some (sz, lo, hi) \<Rightarrow>
               if length s < sz then 1
               else if \<not> in_range (cs ! 0) lo hi then 1
               else if sz = 2 then 2
               else if \<not> in_range (cs ! 1) 0x80 0xBF then 1
               else if sz = 3 then 3
               else if \<not> in_range (cs ! 2) 0x80 0xBF then 1
               else 4))"

function runes :: "string \<Rightarrow> string list" where
  "runes s = (if s = [] then [] else take (rune_size s) s # runes (drop (rune_size s) s))"
  by pat_completeness auto
termination
  by (relation "measure length")
    (auto simp: rune_size_def split: list.splits option.splits prod.splits)

declare runes.simps [simp del]

definition RuneCountInString :: "string \<Rightarrow> nat" where
  "RuneCountInString s = length (runes s)"

section \<open>Formatting and replacing\<close>

text \<open>\<open>strings.HasPrefix\<close>.\<close>

definition HasPrefix :: "string \<Rightarrow> string \<Rightarrow> bool" where
  "HasPrefix s pre = (length pre \<le> length s \<and> take (length pre) s = pre)"

text \<open>\<open>strings.ReplaceAll(s, old, new)\<close>: the occurrences of \<open>old\<close> are replaced from left
  to right, without overlap; an empty \<open>old\<close> matches before every rune and at the end.\<close>

function replace_nonempty :: "string \<Rightarrow> string \<Rightarrow> string \<Rightarrow> string" where
  "replace_nonempty s old new =
     (if s = [] \<or> old = [] then s
      else if HasPrefix s old then new @ replace_nonempty (drop (length old) s) old new
      else hd s # replace_nonempty (tl s) old new)"
  by pat_completeness auto
termination
  by (relation "measure (\<lambda>(s, old, new). length s)") auto

declare replace_nonempty.simps [simp del]

definition ReplaceAll :: "string \<Rightarrow> string \<Rightarrow> string \<Rightarrow> string" where
  "ReplaceAll s old new =
     (if old = new then s
      else if old = [] then new @ concat (map (\<lambda>r. r @ new) (runes s))
      else replace_nonempty s old new)"

text \<open>\<open>fmt.Sprintf("%v", i)\<close> for an integer: its decimal numeral.\<close>

fun digits :: "nat \<Rightarrow> string" where
  "digits n =
     (if n < 10 then [char_of (48 + n)] else digits (n div 10) @ [char_of (48 + n mod 10)])"

declare digits.simps [simp del]

definition Sprintf_v_int :: "int \<Rightarrow> string" where
  "Sprintf_v_int i = (if i < 0 then CHR ''-'' # digits (nat (- i)) else digits (nat i))"

text \<open>The verb \<open>%-16s\<close> of \<open>fmt\<close>: the string, then spaces up to a width counted in
  runes.\<close>

definition pad_right :: "nat \<Rightarrow> string \<Rightarrow> string" where
  "pad_right width s = s @ replicate (width - RuneCountInString s) CHR '' ''"

section \<open>The manifest generator (package generator)\<close>

text \<open>A value of the \<open>manifest\<close> object as the YAML decoder delivers it.  Floating-point
  numbers and the values of every other kind (null, sequences, mappings, timestamps) are
  represented by the text that \<open>fmt.Sprintf("%v", v)\<close> prints for them.\<close>

datatype manifest_value =
  VString string
| VInt int
| VFloat64 string
| VBool bool
| VOther string

definition ManifestDefaults :: "(string \<times> string) list" where
  "ManifestDefaults =
     [(''arch'', ''x86_64''), (''source'', ''thirdparty''), (''desktop_uidir'', ''ui''),
      (''version'', ''1.0.0'')]"

definition ManifestFieldOrder :: "string list" where
  "ManifestFieldOrder =
     [''appname'', ''version'', ''display_name'', ''desc'', ''arch'', ''source'',
      ''maintainer'', ''maintainer_url'', ''distributor'', ''distributor_url'',
      ''os_min_ver'', ''beta'', ''reloadui'', ''desktop_uidir'', ''desktop_applaunchname'',
      ''changelog'', ''ctl_stop'', ''checkport'', ''install_type'', ''service_port'']"

text \<open>\<open>ReplaceVariables\<close>.  The three replacements are kept in a Go map, and the loop
  visits them in an order that the run-time system chooses anew at every \<open>range\<close>
  statement; \<open>order\<close> is the sequence of placeholders in which this call visits them.\<close>

definition replacements :: "Variables \<Rightarrow> (string \<times> string) list" where
  "replacements vars =
     [(''${SERVICE_NAME}'', ServiceName vars),
      (''${CONTAINER_NAME}'', Variables.ContainerName vars),
      (''${FIRST_PORT}'', FirstPort vars)]"

definition iteration_order :: "('k \<times> 'v) list \<Rightarrow> 'k list \<Rightarrow> bool" where
  "iteration_order m order = (distinct order \<and> set order = fst ` set m)"

definition ReplaceVariables :: "string list \<Rightarrow> string \<Rightarrow> Variables \<Rightarrow> string" where
  "ReplaceVariables order content vars =
     fold (\<lambda>placeholder result.
             case map_of (replacements vars) placeholder of
               None \<Rightarrow> result
             | Some val \<Rightarrow> ReplaceAll result placeholder val)
       order content"

definition formatManifestValue :: "manifest_value \<Rightarrow> string" where
  "formatManifestValue v =
     (case v of
        VString s \<Rightarrow> s
      | VInt i \<Rightarrow> Sprintf_v_int i
      | VFloat64 txt \<Rightarrow> txt
      | VBool b \<Rightarrow> (if b then ''yes'' else ''no'')
      | VOther txt \<Rightarrow> txt)"

definition formatManifestLine :: "string \<Rightarrow> string \<Rightarrow> string" where
  "formatManifestLine key val =
     (if length key < 16 then pad_right 16 key @ ''= '' @ val
      else key @ '' = '' @ val)"

text \<open>Reading a \<open>map[string]string\<close> at a key: the empty string when the key is absent.\<close>

definition lookup :: "(string \<times> string) list \<Rightarrow> string \<Rightarrow> string" where
  "lookup m key = (case map_of m key of None \<Rightarrow> [] | Some v \<Rightarrow> v)"

text \<open>\<open>GenerateManifest\<close>, first half: the map \<open>result\<close>, built in the four steps of
  the source.  Step one copies the defaults.\<close>

definition default_values :: "(string \<times> string) list" where
  "default_values =
     fold (\<lambda>(key, defaultValue) result. AList.update key defaultValue result)
       ManifestDefaults []"

text \<open>Step two: the defaults that come from the variables (service name, image
  organisation, description, first port).\<close>

definition variable_defaults :: "Variables \<Rightarrow> (string \<times> string) list \<Rightarrow>
    (string \<times> string) list" where
  "variable_defaults vars result =
     (let result =
            (if ServiceName vars \<noteq> [] then
               AList.update ''desktop_applaunchname'' (ServiceName vars @ ''.Application'')
                 (AList.update ''display_name'' (ServiceName vars)
                    (AList.update ''appname'' (ServiceName vars) result))
             else result);
          result =
            (if ImageOrg vars \<noteq> [] then
               AList.update ''distributor'' (ImageOrg vars)
                 (AList.update ''maintainer'' (ImageOrg vars) result)
             else result);
          result =
            (if ImageName vars \<noteq> [] then AList.update ''desc'' (ImageName vars) result
             else if ServiceName vars \<noteq> [] then AList.update ''desc'' (ServiceName vars) result
             else result)
      in
        if FirstPort vars \<noteq> [] then AList.update ''service_port'' (FirstPort vars) result
        else result)"

text \<open>Step three: the entries of the \<open>manifest\<close> object, formatted and with the variables
  replaced.  \<open>orders key\<close> is the order in which \<open>ReplaceVariables\<close> visits its
  replacements when it is called for the manifest entry \<open>key\<close>.\<close>

definition manifest_values :: "(string \<Rightarrow> string list) \<Rightarrow> (string \<times> manifest_value) list \<Rightarrow>
    Variables \<Rightarrow> (string \<times> string) list \<Rightarrow> (string \<times> string) list" where
  "manifest_values orders manifest vars result =
     fold (\<lambda>(key, val) result.
             AList.update key (ReplaceVariables (orders key) (formatManifestValue val) vars)
               result)
       manifest result"

text \<open>Step four: the launch name, unless the \<open>manifest\<close> object gives one.\<close>

definition launch_name :: "(string \<times> manifest_value) list \<Rightarrow> (string \<times> string) list \<Rightarrow>
    (string \<times> string) list" where
  "launch_name manifest result =
     (if map_of manifest ''desktop_applaunchname'' = None then
        if map_of manifest ''desktop_appname'' = None then
          (case map_of result ''appname'' of
             Some appname \<Rightarrow>
               if appname \<noteq> [] then
                 AList.update ''desktop_applaunchname'' (appname @ ''.Application'') result
               else result
           | None \<Rightarrow> result)
        else result
      else result)"

definition resolved :: "(string \<Rightarrow> string list) \<Rightarrow> (string \<times> manifest_value) list \<Rightarrow>
    Variables \<Rightarrow> (string \<times> string) list" where
  "resolved orders manifest vars =
     launch_name manifest
       (manifest_values orders manifest vars (variable_defaults vars default_values))"

text \<open>Second half: the lines in the defined order, then the remaining keys sorted.  The
  keys of \<open>result\<close> are collected in the iteration order of the map, which
  \<open>sort.Strings\<close> then replaces by the byte-wise lexicographic order.\<close>

definition emit :: "(string \<times> string) list \<Rightarrow> string" where
  "emit result =
     (let (lines, addedKeys) =
            fold (\<lambda>key (lines, addedKeys).
                    case map_of result key of
                      Some val \<Rightarrow>
                        if val \<noteq> [] then
                          (lines @ [formatManifestLine key val], addedKeys(key := True))
                        else (lines, addedKeys)
                    | None \<Rightarrow> (lines, addedKeys))
              ManifestFieldOrder ([], \<lambda>key. False);
          remainingKeys =
            filter (\<lambda>key. \<not> addedKeys key \<and> lookup result key \<noteq> []) (map fst result);
          lines =
            fold (\<lambda>key lines. lines @ [formatManifestLine key (lookup result key)])
              (sort remainingKeys) lines
      in Join lines [CHR 0x0A] @ [CHR 0x0A])"

definition GenerateManifest :: "(string \<Rightarrow> string list) \<Rightarrow> (string \<times> manifest_value) list \<Rightarrow>
    Variables \<Rightarrow> string" where
  "GenerateManifest orders manifest vars = emit (resolved orders manifest vars)"

definition GetManifestAppname :: "(string \<times> manifest_value) list \<Rightarrow> Variables \<Rightarrow> string" where
  "GetManifestAppname manifest vars =
     (case map_of manifest ''appname'' of
        Some appname \<Rightarrow> formatManifestValue appname
      | None \<Rightarrow> ServiceName vars)"

text \<open>The line format in the words of the specification, which has the key truncated as
  well as padded to the column of 16 characters.\<close>

definition formatManifestLine_spec :: "string \<Rightarrow> string \<Rightarrow> string" where
  "formatManifestLine_spec key val =
     (if length key < 16 then key @ replicate (16 - length key) CHR '' '' @ ''= '' @ val
      else take 16 key @ '' = '' @ val)"

section \<open>Errors, paths and the environment\<close>

text \<open>A Go error: a message of the operating system or of \<open>fmt.Errorf\<close>, or an error
  wrapped with a message (\<open>fmt.Errorf("...: %w", err)\<close>).\<close>

datatype error = New string | Wrap string error

text \<open>\<open>filepath.Clean\<close> on Unix, on the components between slashes: empty components and
  \<open>.\<close> vanish, \<open>..\<close> removes the component before it, stays at the front of a relative
  path and vanishes at the root.\<close>

definition clean_step :: "bool \<Rightarrow> string list \<Rightarrow> string \<Rightarrow> string list" where
  "clean_step rooted out c =
     (if c = [] \<or> c = ''.'' then out
      else if c = ''..'' then
        (if out \<noteq> [] \<and> last out \<noteq> ''..'' then butlast out
         else if \<not> rooted then out @ [''..'']
         else out)
      else out @ [c])"

definition Clean :: "string \<Rightarrow> string" where
  "Clean path =
     (if path = [] then ''.''
      else
        let rooted = (hd path = CHR ''/'');
            out = foldl (clean_step rooted) [] (Split path CHR ''/'')
        in if rooted then CHR ''/'' # Join out ''/''
           else if out = [] then ''.''
           else Join out ''/'')"

text \<open>\<open>filepath.Join\<close>: the elements from the first non-empty one on, joined by slashes and
  cleaned; the empty string when every element is empty.\<close>

definition filepath_Join :: "string list \<Rightarrow> string" where
  "filepath_Join elem =
     (case dropWhile (\<lambda>e. e = []) elem of
        [] \<Rightarrow> []
      | e # es \<Rightarrow> Clean (Join (e # es) ''/''))"

text \<open>\<open>filepath.Dir\<close>: the path up to its last slash, cleaned.\<close>

definition Dir :: "string \<Rightarrow> string" where
  "Dir path = Clean (rev (dropWhile (\<lambda>c. c \<noteq> CHR ''/'') (rev path)))"

text \<open>A JSON document, as \<open>encoding/json\<close> derives it from the Go value it is given.\<close>

datatype json =
  JString string
| JBool bool
| JArray "json list"
| JObject "(string \<times> json) list"

section \<open>Images (packages image, image/draw)\<close>

text \<open>Coordinates are mathematical integers; the limits of memory allocation are not part
  of the model.  A colour is the quadruple of alpha-premultiplied 16-bit channels that the
  method \<open>RGBA()\<close> of a Go colour returns; an \<open>image.Image\<close> is its bounds and its method
  \<open>At\<close>.\<close>

record Point =
  X :: int
  Y :: int

record Rectangle =
  Min_pt :: Point
  Max_pt :: Point

type_synonym color = "16 word \<times> 16 word \<times> 16 word \<times> 16 word"

type_synonym rgba = "8 word \<times> 8 word \<times> 8 word \<times> 8 word"

record Image =
  Bounds :: Rectangle
  At :: "int \<Rightarrow> int \<Rightarrow> color"

text \<open>An \<open>*image.RGBA\<close>: its rectangle and its pixels, four bytes each, here addressed by
  their coordinates rather than by their offset in the buffer.\<close>

record RGBA =
  Rect_of :: Rectangle
  Pix :: "int \<Rightarrow> int \<Rightarrow> rgba"

definition Pt :: "int \<Rightarrow> int \<Rightarrow> Point" where
  "Pt x y = \<lparr>X = x, Y = y\<rparr>"

text \<open>\<open>image.Rect\<close> puts the corners in order.\<close>

definition Rect :: "int \<Rightarrow> int \<Rightarrow> int \<Rightarrow> int \<Rightarrow> Rectangle" where
  "Rect x0 y0 x1 y1 =
     \<lparr>Min_pt = Pt (if x0 > x1 then x1 else x0) (if y0 > y1 then y1 else y0),
      Max_pt = Pt (if x0 > x1 then x0 else x1) (if y0 > y1 then y0 else y1)\<rparr>"

definition Dx :: "Rectangle \<Rightarrow> int" where
  "Dx r = X (Max_pt r) - X (Min_pt r)"

definition Dy :: "Rectangle \<Rightarrow> int" where
  "Dy r = Y (Max_pt r) - Y (Min_pt r)"

definition Empty :: "Rectangle \<Rightarrow> bool" where
  "Empty r = (X (Min_pt r) \<ge> X (Max_pt r) \<or> Y (Min_pt r) \<ge> Y (Max_pt r))"

definition ZR :: Rectangle where
  "ZR = \<lparr>Min_pt = Pt 0 0, Max_pt = Pt 0 0\<rparr>"

definition Intersect :: "Rectangle \<Rightarrow> Rectangle \<Rightarrow> Rectangle" where
  "Intersect r s =
     (let r' = \<lparr>Min_pt = Pt (if X (Min_pt r) < X (Min_pt s) then X (Min_pt s) else X (Min_pt r))
                          (if Y (Min_pt r) < Y (Min_pt s) then Y (Min_pt s) else Y (Min_pt r)),
                Max_pt = Pt (if X (Max_pt r) > X (Max_pt s) then X (Max_pt s) else X (Max_pt r))
                          (if Y (Max_pt r) > Y (Max_pt s) then Y (Max_pt s) else Y (Max_pt r))\<rparr>
      in if Empty r' then ZR else r')"

definition Add :: "Rectangle \<Rightarrow> Point \<Rightarrow> Rectangle" where
  "Add r p =
     \<lparr>Min_pt = Pt (X (Min_pt r) + X p) (Y (Min_pt r) + Y p),
      Max_pt = Pt (X (Max_pt r) + X p) (Y (Max_pt r) + Y p)\<rparr>"

definition Sub :: "Point \<Rightarrow> Point \<Rightarrow> Point" where
  "Sub p q = Pt (X p - X q) (Y p - Y q)"

definition In :: "int \<Rightarrow> int \<Rightarrow> Rectangle \<Rightarrow> bool" where
  "In x y r = (X (Min_pt r) \<le> x \<and> x < X (Max_pt r) \<and> Y (Min_pt r) \<le> y \<and> y < Y (Max_pt r))"

text \<open>\<open>image.NewRGBA\<close>: every byte of the buffer is zero.\<close>

definition NewRGBA :: "Rectangle \<Rightarrow> RGBA" where
  "NewRGBA r = \<lparr>Rect_of = r, Pix = (\<lambda>x y. (0, 0, 0, 0))\<rparr>"

text \<open>The method \<open>At\<close> of an \<open>*image.RGBA\<close>, read through \<open>RGBA()\<close>: each byte \<open>c\<close> becomes
  the 16-bit value \<open>c * 0x101\<close>; outside the rectangle the colour is zero.\<close>

definition widen :: "8 word \<Rightarrow> 16 word" where
  "widen c = ucast c * 0x101"

definition RGBA_At :: "RGBA \<Rightarrow> int \<Rightarrow> int \<Rightarrow> color" where
  "RGBA_At m x y =
     (if In x y (Rect_of m) then
        (case Pix m x y of (r, g, b, a) \<Rightarrow> (widen r, widen g, widen b, widen a))
      else (0, 0, 0, 0))"

definition as_Image :: "RGBA \<Rightarrow> Image" where
  "as_Image m = \<lparr>Bounds = Rect_of m, At = RGBA_At m\<rparr>"

text \<open>\<open>&image.Uniform{c}\<close>: one colour on a rectangle of a thousand million pixels each
  way.\<close>

definition Uniform :: "color \<Rightarrow> Image" where
  "Uniform c = \<lparr>Bounds = Rect (- 1000000000) (- 1000000000) 1000000000 1000000000,
     At = (\<lambda>x y. c)\<rparr>"

definition Transparent :: color where
  "Transparent = (0, 0, 0, 0)"

text \<open>The two compositing operators on one channel of an \<open>*image.RGBA\<close>, in the 32-bit
  arithmetic of \<open>image/draw\<close>: \<open>d\<close> is the byte of the destination, \<open>s\<close> the channel and
  \<open>sa\<close> the alpha of the source.\<close>

datatype Op = Over | Src

definition channel :: "Op \<Rightarrow> 8 word \<Rightarrow> 16 word \<Rightarrow> 16 word \<Rightarrow> 8 word" where
  "channel op d s sa =
     (let m = (0xFFFF :: 32 word);
          ma = m
      in case op of
           Over \<Rightarrow>
             (let a = (m - (ucast sa * ma div m)) * 0x101
              in ucast (drop_bit 8 ((ucast d * a + ucast s * ma) div m)))
         | Src \<Rightarrow> ucast (drop_bit 8 (ucast s * ma div m)))"

definition compose :: "Op \<Rightarrow> rgba \<Rightarrow> color \<Rightarrow> rgba" where
  "compose op d s =
     (case d of (dr, dg, db, da) \<Rightarrow>
        case s of (sr, sg, sb, sa) \<Rightarrow>
          (channel op dr sr sa, channel op dg sg sa, channel op db sb sa,
           channel op da sa sa))"

text \<open>\<open>draw.Draw(dst, r, src, sp, op)\<close>: the rectangle is clipped to the destination and to
  the source, and every pixel in it is composed with the pixel of the source that
  corresponds to it.\<close>

definition Draw :: "RGBA \<Rightarrow> Rectangle \<Rightarrow> Image \<Rightarrow> Point \<Rightarrow> Op \<Rightarrow> RGBA" where
  "Draw dst r src sp op =
     (let orig = Min_pt r;
          r = Intersect r (Rect_of dst);
          r = Intersect r (Add (Bounds src) (Sub orig sp));
          dx = X (Min_pt r) - X orig;
          dy = Y (Min_pt r) - Y orig;
          sp = Pt (X sp + dx) (Y sp + dy)
      in
        if Empty r then dst
        else
          dst\<lparr>Pix := (\<lambda>x y.
            if In x y r then
              compose op (Pix dst x y)
                (At src (X sp + (x - X (Min_pt r))) (Y sp + (y - Y (Min_pt r))))
            else Pix dst x y)\<rparr>)"

section \<open>The builder and the icon handler (package builder)\<close>

record XFnpack =
  Manifest :: "(string \<times> manifest_value) list"
  Files :: "(string \<times> string) list"

record ComposeFile =
  XFnpack :: XFnpack
  Services :: "(string \<times> Service) list"

record Builder =
  InputDir :: string
  OutputDir :: string
  AppName :: string
  Compose :: ComposeFile
  Variables :: Variables
  Verbose :: bool

record DirEntry =
  Name :: string
  IsDir :: bool

text \<open>What the program obtains from the operating system and from libraries: the listing
  of a directory, the decoding of an image file (\<open>imaging.Open\<close>), the resampling
  (\<open>imaging.Resize\<close> with the Lanczos filter, which computes in floating point), the
  failures of \<open>os.MkdirAll\<close>, \<open>os.Create\<close> and \<open>os.WriteFile\<close> (\<open>None\<close> is success), the
  PNG encoder, the JSON encoder \<open>json.MarshalIndent\<close> with its fixed indentation, the
  content of the compose file without its extension block (\<open>parser.CleanComposeFile\<close>, a
  round trip through the YAML library), and whether \<open>os.Stat\<close> finds a file.  The
  run-time system chooses the order in which each call of \<open>ReplaceVariables\<close> visits its
  replacements: \<open>ManifestOrders key\<close> for the manifest entry \<open>key\<close>, \<open>FileOrders path\<close>
  for the custom file \<open>path\<close>.  The last two fields are the script generators of
  \<open>scripts.go\<close>, a file that is not among the sources: the main script as a function of
  the variables, and the map of the lifecycle scripts, from names to contents, in the
  order of iteration.\<close>

record env =
  ReadDir :: "string \<Rightarrow> error + DirEntry list"
  Open :: "string \<Rightarrow> error + Image"
  Resize :: "Image \<Rightarrow> int \<Rightarrow> int \<Rightarrow> Image"
  MkdirAll :: "string \<Rightarrow> error option"
  Create :: "string \<Rightarrow> error option"
  WriteFile :: "string \<Rightarrow> error option"
  Encode :: "Image \<Rightarrow> error + string"
  MarshalIndent :: "json \<Rightarrow> error + string"
  CleanComposeFile :: "string \<Rightarrow> error + string"
  Stat_IsNotExist :: "string \<Rightarrow> bool"
  ManifestOrders :: "string \<Rightarrow> string list"
  FileOrders :: "string \<Rightarrow> string list"
  GenerateMainScript :: "Variables \<Rightarrow> string"
  GenerateLifecycleScripts :: "(string \<times> string) list"

text \<open>The files of the output tree: a map from paths to contents.\<close>

type_synonym files = "string \<rightharpoonup> string"

definition GetAppDir :: "Builder \<Rightarrow> string" where
  "GetAppDir b = filepath_Join [OutputDir b, AppName b]"

text \<open>The test \<open>strings.HasSuffix(strings.ToLower(name), ".png")\<close> depends on the last four
  bytes of the name only, which must be \<open>.png\<close> up to the case of the ASCII letters.\<close>

definition lower :: "char \<Rightarrow> char" where
  "lower c = (if 65 \<le> (of_char c :: nat) \<and> (of_char c :: nat) \<le> 90
     then char_of (of_char c + (32 :: nat)) else c)"

definition has_png_suffix :: "string \<Rightarrow> bool" where
  "has_png_suffix name =
     (length name \<ge> 4 \<and> map lower (drop (length name - 4) name) = ''.png'')"

fun find_png :: "string \<Rightarrow> DirEntry list \<Rightarrow> string option" where
  "find_png dir [] = None"
| "find_png dir (entry # entries) =
     (if IsDir entry then find_png dir entries
      else if has_png_suffix (Name entry) then Some (filepath_Join [dir, Name entry])
      else find_png dir entries)"

definition FindIcon :: "env \<Rightarrow> Builder \<Rightarrow> error + string" where
  "FindIcon e b =
     (case ReadDir e (InputDir b) of
        Inl err \<Rightarrow> Inl (Wrap ''failed to read input directory'' err)
      | Inr entries \<Rightarrow>
          (case find_png (InputDir b) entries of
             Some path \<Rightarrow> Inr path
           | None \<Rightarrow> Inl (New (''no .png file found in '' @ InputDir b))))"

text \<open>\<open>squareImage\<close>; the division of Go integers truncates.\<close>

definition squareImage :: "Image \<Rightarrow> Image" where
  "squareImage src =
     (let bounds = Bounds src;
          srcWidth = Dx bounds;
          srcHeight = Dy bounds
      in
        if srcWidth = srcHeight then src
        else
          let size = (if srcHeight > srcWidth then srcHeight else srcWidth);
              dst = NewRGBA (Rect 0 0 size size);
              dst = Draw dst (Rect_of dst) (Uniform Transparent) (Pt 0 0) Src;
              offsetX = (size - srcWidth) sdiv 2;
              offsetY = (size - srcHeight) sdiv 2;
              dstRect = Rect offsetX offsetY (offsetX + srcWidth) (offsetY + srcHeight);
              dst = Draw dst dstRect src (Min_pt bounds) Over
          in as_Image dst)"

definition ResizeIcon :: "env \<Rightarrow> Image \<Rightarrow> int \<Rightarrow> int \<Rightarrow> Image" where
  "ResizeIcon e src width height = Resize e src width height"

definition saveIcon :: "env \<Rightarrow> Image \<Rightarrow> string \<Rightarrow> files \<Rightarrow> error + files" where
  "saveIcon e img destPath fs =
     (case MkdirAll e (Dir destPath) of
        Some err \<Rightarrow> Inl (Wrap ''failed to create directory'' err)
      | None \<Rightarrow>
          (case Create e destPath of
             Some err \<Rightarrow> Inl (Wrap ''failed to create file'' err)
           | None \<Rightarrow>
               (case Encode e img of
                  Inl err \<Rightarrow> Inl (Wrap ''failed to encode PNG'' err)
                | Inr bytes \<Rightarrow> Inr (fs(destPath \<mapsto> bytes)))))"

text \<open>The table of \<open>CopyIcons\<close>: width, height and the path elements below the application
  directory.\<close>

definition icons :: "(int \<times> int \<times> string list) list" where
  "icons =
     [(64, 64, [''ICON.PNG'']),
      (256, 256, [''ICON_256.PNG'']),
      (64, 64, [''app'', ''ui'', ''images'', ''icon-64.png'']),
      (256, 256, [''app'', ''ui'', ''images'', ''icon-256.png''])]"

fun copy_icons :: "env \<Rightarrow> string \<Rightarrow> Image \<Rightarrow> (int \<times> int \<times> string list) list \<Rightarrow>
    files \<Rightarrow> error + files" where
  "copy_icons e appDir srcImg [] fs = Inr fs"
| "copy_icons e appDir srcImg ((width, height, elems) # rest) fs =
     (let destPath = filepath_Join (appDir # elems);
          resized = ResizeIcon e srcImg width height
      in case saveIcon e resized destPath fs of
           Inl err \<Rightarrow> Inl (Wrap (''failed to save icon '' @ destPath) err)
         | Inr fs' \<Rightarrow> copy_icons e appDir srcImg rest fs')"

definition CopyIcons :: "env \<Rightarrow> Builder \<Rightarrow> Image \<Rightarrow> files \<Rightarrow> error + files" where
  "CopyIcons e b srcImg fs = copy_icons e (GetAppDir b) srcImg icons fs"

text \<open>\<open>ProcessIcons\<close>: \<open>Inr\<close> is the return of \<open>nil\<close>, with the files written.\<close>

definition ProcessIcons :: "env \<Rightarrow> Builder \<Rightarrow> files \<Rightarrow> error + files" where
  "ProcessIcons e b fs =
     (case FindIcon e b of
        Inl err \<Rightarrow> Inr fs
      | Inr iconPath \<Rightarrow>
          (case Open e iconPath of
             Inl err \<Rightarrow> Inl (Wrap ''failed to open icon'' err)
           | Inr srcImg \<Rightarrow> CopyIcons e b (squareImage srcImg) fs))"

section \<open>The configuration generators (package generator)\<close>

text \<open>\<open>marshalJSON\<close>.\<close>

definition marshalJSON :: "env \<Rightarrow> json \<Rightarrow> error + string" where
  "marshalJSON e data =
     (case MarshalIndent e data of
        Inl err \<Rightarrow> Inl err
      | Inr jsonBytes \<Rightarrow> Inr (jsonBytes @ [CHR 0x0A]))"

record UIConfigEntry =
  Title :: string
  Icon :: string
  Type :: string
  Protocol :: string
  Port :: string
  URL :: string
  AllUsers :: bool

text \<open>The JSON object of a \<open>UIConfigEntry\<close>, by its field tags: \<open>protocol\<close> and \<open>port\<close>
  are left out when empty.\<close>

definition UIConfigEntry_json :: "UIConfigEntry \<Rightarrow> json" where
  "UIConfigEntry_json c =
     JObject
       ([(''title'', JString (Title c)), (''icon'', JString (Icon c)),
         (''type'', JString (Type c))] @
        (if Protocol c \<noteq> [] then [(''protocol'', JString (Protocol c))] else []) @
        (if Port c \<noteq> [] then [(''port'', JString (Port c))] else []) @
        [(''url'', JString (URL c)), (''allUsers'', JBool (AllUsers c))])"

text \<open>The entry that \<open>GenerateDefaultUIConfig\<close> builds, and the function itself.\<close>

definition default_entry :: "Variables \<Rightarrow> UIConfigEntry" where
  "default_entry vars =
     \<lparr>Title = ServiceName vars, Icon = ''images/icon_{0}.png'', Type = ''url'',
      Protocol = ''http'', Port = FirstPort vars, URL = ''/'', AllUsers = True\<rparr>"

definition GenerateDefaultUIConfig :: "env \<Rightarrow> Variables \<Rightarrow> error + string" where
  "GenerateDefaultUIConfig e vars =
     (let appEntry = ServiceName vars @ ''.Application'';
          config = JObject [(''.url'', JObject [(appEntry, UIConfigEntry_json (default_entry vars))])]
      in marshalJSON e config)"

definition GeneratePrivilege :: "env \<Rightarrow> Variables \<Rightarrow> error + string" where
  "GeneratePrivilege e vars =
     marshalJSON e
       (JObject
          ([(''defaults'', JObject [(''run-as'', JString ''package'')])] @
           (if ServiceName vars \<noteq> [] then [(''username'', JString (ServiceName vars))] else []) @
           (if ServiceName vars \<noteq> [] then [(''groupname'', JString (ServiceName vars))] else [])))"

definition GenerateResource :: "env \<Rightarrow> Variables \<Rightarrow> error + string" where
  "GenerateResource e vars =
     marshalJSON e
       (JObject
          [(''docker-project'',
            JObject
              [(''projects'',
                JArray [JObject [(''name'', JString (ServiceName vars)),
                                 (''path'', JString ''docker'')]])])])"

section \<open>The writer (package builder)\<close>

text \<open>\<open>os.WriteFile\<close>: the file at the path has the content, unless the operating system
  refuses.  Permission bits are not part of the model.\<close>

definition write_file :: "env \<Rightarrow> string \<Rightarrow> string \<Rightarrow> files \<Rightarrow> error + files" where
  "write_file e path content fs =
     (case WriteFile e path of
        Some err \<Rightarrow> Inl err
      | None \<Rightarrow> Inr (fs(path \<mapsto> content)))"

definition hasFile :: "(string \<times> string) list \<Rightarrow> string \<Rightarrow> bool" where
  "hasFile files path = (map_of files path \<noteq> None)"

definition WriteManifest :: "env \<Rightarrow> Builder \<Rightarrow> files \<Rightarrow> error + files" where
  "WriteManifest e b fs =
     (let content = GenerateManifest (ManifestOrders e) (Manifest (XFnpack (Compose b)))
                      (Variables b);
          manifestPath = filepath_Join [GetAppDir b, ''manifest'']
      in case write_file e manifestPath content fs of
           Inl err \<Rightarrow> Inl (Wrap ''failed to write manifest'' err)
         | Inr fs' \<Rightarrow> Inr fs')"

text \<open>\<open>WriteCustomFiles\<close>: the entries of the map \<open>Files\<close>, in the order of iteration.\<close>

fun write_custom_files :: "env \<Rightarrow> Builder \<Rightarrow> (string \<times> string) list \<Rightarrow> files \<Rightarrow>
    error + files" where
  "write_custom_files e b [] fs = Inr fs"
| "write_custom_files e b ((filePath, content) # rest) fs =
     (let content = ReplaceVariables (FileOrders e filePath) content (Variables b);
          fullPath = filepath_Join [GetAppDir b, filePath];
          parentDir = Dir fullPath
      in case MkdirAll e parentDir of
           Some err \<Rightarrow> Inl (Wrap (''failed to create directory for '' @ filePath) err)
         | None \<Rightarrow>
             (case write_file e fullPath content fs of
                Inl err \<Rightarrow> Inl (Wrap (''failed to write file '' @ filePath) err)
              | Inr fs' \<Rightarrow> write_custom_files e b rest fs'))"

definition WriteCustomFiles :: "env \<Rightarrow> Builder \<Rightarrow> files \<Rightarrow> error + files" where
  "WriteCustomFiles e b fs = write_custom_files e b (Files (XFnpack (Compose b))) fs"

definition WriteConfigs :: "env \<Rightarrow> Builder \<Rightarrow> files \<Rightarrow> error + files" where
  "WriteConfigs e b fs =
     (let files = Files (XFnpack (Compose b)) in
      case (if \<not> hasFile files ''config/privilege'' then
              (case GeneratePrivilege e (Variables b) of
                 Inl err \<Rightarrow> Inl (Wrap ''failed to generate privilege config'' err)
               | Inr privilegeContent \<Rightarrow>
                   (case write_file e (filepath_Join [GetAppDir b, ''config'', ''privilege''])
                           privilegeContent fs of
                      Inl err \<Rightarrow> Inl (Wrap ''failed to write privilege config'' err)
                    | Inr fs' \<Rightarrow> Inr fs'))
            else Inr fs) of
        Inl err \<Rightarrow> Inl err
      | Inr fs \<Rightarrow>
          if \<not> hasFile files ''config/resource'' then
            (case GenerateResource e (Variables b) of
               Inl err \<Rightarrow> Inl (Wrap ''failed to generate resource config'' err)
             | Inr resourceContent \<Rightarrow>
                 (case write_file e (filepath_Join [GetAppDir b, ''config'', ''resource''])
                         resourceContent fs of
                    Inl err \<Rightarrow> Inl (Wrap ''failed to write resource config'' err)
                  | Inr fs' \<Rightarrow> Inr fs'))
          else Inr fs)"

text \<open>\<open>WriteScript\<close>: the main script, then the lifecycle scripts in the order of iteration
  of their map.\<close>

fun write_lifecycle :: "env \<Rightarrow> Builder \<Rightarrow> (string \<times> string) list \<Rightarrow> files \<Rightarrow>
    error + files" where
  "write_lifecycle e b [] fs = Inr fs"
| "write_lifecycle e b ((name, content) # rest) fs =
     (let filePath = ''cmd/'' @ name in
      if \<not> hasFile (Files (XFnpack (Compose b))) filePath then
        (case write_file e (filepath_Join [GetAppDir b, ''cmd'', name]) content fs of
           Inl err \<Rightarrow> Inl (Wrap (''failed to write '' @ name @ '' script'') err)
         | Inr fs' \<Rightarrow> write_lifecycle e b rest fs')
      else write_lifecycle e b rest fs)"

definition WriteScript :: "env \<Rightarrow> Builder \<Rightarrow> files \<Rightarrow> error + files" where
  "WriteScript e b fs =
     (let files = Files (XFnpack (Compose b)) in
      case (if \<not> hasFile files ''cmd/main'' then
              (case write_file e (filepath_Join [GetAppDir b, ''cmd'', ''main''])
                      (GenerateMainScript e (Variables b)) fs of
                 Inl err \<Rightarrow> Inl (Wrap ''failed to write main script'' err)
               | Inr fs' \<Rightarrow> Inr fs')
            else Inr fs) of
        Inl err \<Rightarrow> Inl err
      | Inr fs \<Rightarrow> write_lifecycle e b (GenerateLifecycleScripts e) fs)"

definition WriteUIConfig :: "env \<Rightarrow> Builder \<Rightarrow> files \<Rightarrow> error + files" where
  "WriteUIConfig e b fs =
     (let files = Files (XFnpack (Compose b)) in
      if \<not> hasFile files ''app/ui/config'' then
        (case GenerateDefaultUIConfig e (Variables b) of
           Inl err \<Rightarrow> Inl (Wrap ''failed to generate UI config'' err)
         | Inr content \<Rightarrow>
             (case write_file e (filepath_Join [GetAppDir b, ''app'', ''ui'', ''config''])
                     content fs of
                Inl err \<Rightarrow> Inl (Wrap ''failed to write UI config'' err)
              | Inr fs' \<Rightarrow> Inr fs'))
      else Inr fs)"

definition CopyCompose :: "env \<Rightarrow> Builder \<Rightarrow> files \<Rightarrow> error + files" where
  "CopyCompose e b fs =
     (let composePath = filepath_Join [InputDir b, ''compose.yaml''];
          composePath =
            (if Stat_IsNotExist e composePath
             then filepath_Join [InputDir b, ''docker-compose.yaml'']
             else composePath)
      in case CleanComposeFile e composePath of
           Inl err \<Rightarrow> Inl (Wrap ''failed to clean compose file'' err)
         | Inr cleanContent \<Rightarrow>
             (case write_file e
                     (filepath_Join [GetAppDir b, ''app'', ''docker'', ''docker-compose.yaml''])
                     cleanContent fs of
                Inl err \<Rightarrow> Inl (Wrap ''failed to write compose file'' err)
              | Inr fs' \<Rightarrow> Inr fs'))"

definition WriteLicense :: "env \<Rightarrow> Builder \<Rightarrow> files \<Rightarrow> error + files" where
  "WriteLicense e b fs =
     (case write_file e (filepath_Join [GetAppDir b, ''LICENSE'']) [] fs of
        Inl err \<Rightarrow> Inl (Wrap ''failed to write LICENSE'' err)
      | Inr fs' \<Rightarrow> Inr fs')"

text \<open>\<open>writeAllFiles\<close>: the seven steps, the first error ends the build.\<close>

definition writeAllFiles :: "env \<Rightarrow> Builder \<Rightarrow> files \<Rightarrow> error + files" where
  "writeAllFiles e b fs =
     (case WriteManifest e b fs of Inl err \<Rightarrow> Inl err | Inr fs \<Rightarrow>
      case WriteCustomFiles e b fs of Inl err \<Rightarrow> Inl err | Inr fs \<Rightarrow>
      case WriteConfigs e b fs of Inl err \<Rightarrow> Inl err | Inr fs \<Rightarrow>
      case WriteScript e b fs of Inl err \<Rightarrow> Inl err | Inr fs \<Rightarrow>
      case WriteUIConfig e b fs of Inl err \<Rightarrow> Inl err | Inr fs \<Rightarrow>
      case CopyCompose e b fs of Inl err \<Rightarrow> Inl err | Inr fs \<Rightarrow>
      WriteLicense e b fs)"

text \<open>The default artifacts: the key that \<open>hasFile\<close> looks up, the path elements below the
  application directory, and the generated content.\<close>

definition default_artifacts :: "env \<Rightarrow> Builder \<Rightarrow> (string \<times> string list \<times> (error + string)) list" where
  "default_artifacts e b =
     [(''config/privilege'', [''config'', ''privilege''], GeneratePrivilege e (Variables b)),
      (''config/resource'', [''config'', ''resource''], GenerateResource e (Variables b)),
      (''cmd/main'', [''cmd'', ''main''], Inr (GenerateMainScript e (Variables b))),
      (''app/ui/config'', [''app'', ''ui'', ''config''],
         GenerateDefaultUIConfig e (Variables b))] @
     map (\<lambda>(name, content). (''cmd/'' @ name, [''cmd'', name], Inr content))
       (GenerateLifecycleScripts e)"

text \<open>A path element that \<open>filepath.Clean\<close> keeps as it is: not empty, without a slash, and
  neither \<open>.\<close> nor \<open>..\<close>.\<close>

definition plain :: "string \<Rightarrow> bool" where
  "plain c = (c \<noteq> [] \<and> CHR ''/'' \<notin> set c \<and> c \<noteq> ''.'' \<and> c \<noteq> ''..'')"

section \<open>An environment and a builder for the examples\<close>

text \<open>In \<open>example_env\<close> every operation succeeds: the input directory lists the compose
  file and an icon of three pixels by one, the resampling only sets the bounds, the
  encoders return fixed texts, and there are two lifecycle scripts.\<close>

definition example_image :: Image where
  "example_image =
     \<lparr>Bounds = \<lparr>Min_pt = Pt 10 20, Max_pt = Pt 13 21\<rparr>,
      At = (\<lambda>x y. (0xFFFF, 0x8000, 0x01FF, 0xFFFF))\<rparr>"

definition example_env :: env where
  "example_env =
     \<lparr>ReadDir = (\<lambda>dir. Inr [\<lparr>Name = ''compose.yaml'', IsDir = False\<rparr>,
                             \<lparr>Name = ''Icon.PNG'', IsDir = False\<rparr>]),
      Open = (\<lambda>path. Inr example_image),
      Resize = (\<lambda>img width height. img\<lparr>Bounds := Rect 0 0 width height\<rparr>),
      MkdirAll = (\<lambda>path. None),
      Create = (\<lambda>path. None),
      WriteFile = (\<lambda>path. None),
      Encode = (\<lambda>img. Inr ''PNG''),
      MarshalIndent = (\<lambda>data. Inr ''{}''),
      CleanComposeFile = (\<lambda>path. Inr ''services: {}''),
      Stat_IsNotExist = (\<lambda>path. False),
      ManifestOrders = (\<lambda>key. [''${SERVICE_NAME}'', ''${CONTAINER_NAME}'', ''${FIRST_PORT}'']),
      FileOrders = (\<lambda>path. [''${FIRST_PORT}'', ''${CONTAINER_NAME}'', ''${SERVICE_NAME}'']),
      GenerateMainScript = (\<lambda>vars. ''#!/bin/bash''),
      GenerateLifecycleScripts = [(''install_init'', ''#!/bin/bash''),
                                  (''uninstall_init'', ''#!/bin/bash'')]\<rparr>"

definition example_builder :: Builder where
  "example_builder =
     \<lparr>InputDir = ''in'', OutputDir = ''dist'', AppName = ''web'',
      Compose = \<lparr>XFnpack = \<lparr>Manifest = [], Files = []\<rparr>,
                 Services = [(''web'', \<lparr>Image = ''nginx'', ContainerName = [], Ports = []\<rparr>)]\<rparr>,
      Variables = \<lparr>ServiceName = ''web'', ContainerName = ''web'', FirstPort = [],
                   ImageOrg = ''nginx'', ImageName = ''nginx''\<rparr>,
      Verbose = False\<rparr>"

section \<open>Facts about splitting\<close>

lemma Split_not_Nil: "Split s sep \<noteq> []"
  by (induction s) (auto split: list.splits)

lemma Split_no_sep: "t \<in> set (Split s sep) \<Longrightarrow> sep \<notin> set t"
proof (induction s arbitrary: t)
  case Nil
  then show ?case by simp
next
  case (Cons x xs)
  show ?case
  proof (cases "x = sep")
    case True
    with Cons show ?thesis by auto
  next
    case False
    obtain u us where us: "Split xs sep = u # us"
      using Split_not_Nil [of xs sep] by (cases "Split xs sep") auto
    with Cons False show ?thesis by auto
  qed
qed

lemma Join_Split: "Join (Split s sep) [sep] = s"
proof (induction s)
  case Nil
  then show ?case by simp
next
  case (Cons x xs)
  obtain u us where us: "Split xs sep = u # us"
    using Split_not_Nil [of xs sep] by (cases "Split xs sep") auto
  show ?case
  proof (cases "x = sep")
    case True
    with Cons us show ?thesis by simp
  next
    case False
    with Cons us show ?thesis by (cases us) auto
  qed
qed

lemma Split_no_occurrence: "sep \<notin> set s \<Longrightarrow> Split s sep = [s]"
  by (induction s) auto

lemma Split_append_sep:
  "sep \<notin> set t \<Longrightarrow> Split (t @ sep # rest) sep = t # Split rest sep"
  by (induction t) auto

lemma Split_Join:
  "ts \<noteq> [] \<Longrightarrow> \<forall>t\<in>set ts. sep \<notin> set t \<Longrightarrow> Split (Join ts [sep]) sep = ts"
proof (induction ts "[sep]" rule: Join.induct)
  case 1
  then show ?case by simp
next
  case (2 x)
  then show ?case by (simp add: Split_no_occurrence)
next
  case (3 x y ys)
  then show ?case by (simp add: Split_append_sep)
qed

lemma hd_Split: "hd (Split s sep) = takeWhile (\<lambda>c. c \<noteq> sep) s"
proof (induction s)
  case Nil
  then show ?case by simp
next
  case (Cons x xs)
  then show ?case
    using Split_not_Nil [of xs sep] by (cases "Split xs sep") auto
qed

lemma index_Split_0: "index (Split s sep) 0 = Some (takeWhile (\<lambda>c. c \<noteq> sep) s)"
  using Split_not_Nil [of s sep] hd_Split [of s sep]
  by (cases "Split s sep") (auto simp: index_def)

lemma set_Join_subset: "set (Join ts sep) \<subseteq> \<Union> (set ` set ts) \<union> set sep"
  by (induction ts sep rule: Join.induct) auto

lemma takeWhile_Join_suffix:
  assumes "CHR ''/'' \<notin> set r" "suffix = [] \<or> hd suffix = CHR ''/''"
  shows "takeWhile (\<lambda>c. c \<noteq> CHR ''/'') (r @ suffix) = r"
proof (cases suffix)
  case Nil
  with assms show ?thesis by (auto simp: takeWhile_eq_all_conv)
next
  case (Cons c cs)
  with assms have "suffix = CHR ''/'' # cs" by simp
  with assms show ?thesis by (auto simp: takeWhile_tail takeWhile_eq_all_conv)
qed

lemma set_Split_subset: "t \<in> set (Split s sep) \<Longrightarrow> set t \<subseteq> set s"
proof (induction s arbitrary: t)
  case Nil
  then show ?case by simp
next
  case (Cons x xs)
  obtain u us where us: "Split xs sep = u # us"
    using Split_not_Nil [of xs sep] by (cases "Split xs sep") auto
  with Cons show ?case by (cases "x = sep") (fastforce split: if_splits)+
qed

lemma extractHostPort_unfold:
  "extractHostPort s =
     (let parts = Split (takeWhile (\<lambda>c. c \<noteq> CHR ''/'') s) CHR '':'' in
        if length parts = 1 then Some (parts ! 0)
        else if length parts = 2 then Some (parts ! 0)
        else if length parts = 3 then Some (parts ! 1)
        else Some [])"
  unfolding extractHostPort_def index_Split_0 option.case
  by (simp add: index_def Let_def)

lemma extractHostPort_total: "\<exists>port. extractHostPort s = Some port"
  by (simp add: extractHostPort_unfold Let_def)

lemma tokens_no_slash:
  assumes "\<forall>t\<in>set ts. CHR ''/'' \<notin> set t"
  shows "CHR ''/'' \<notin> set (Join ts '':'')"
  using assms set_Join_subset [of ts "'':''"] by auto

section \<open>Host-port parsing\<close>

text \<open>
  Claim C1, as amended.  \<open>extractHostPort\<close> never panics, and it keeps the text before
  the \<^emph>\<open>first\<close> \<open>/\<close> (not the text before the last one): every port mapping is a
  sequence \<open>ts\<close> of one or more tokens free of \<open>:\<close> and \<open>/\<close>, joined by \<open>:\<close>, followed
  by nothing or by a suffix that starts with \<open>/\<close>; the result is the sole token when
  there is one, the first token when there are two, the second when there are three, and
  the empty string for any other number of tokens.
\<close>

theorem extractHostPort_tokens:
  "(\<exists>port. extractHostPort s = Some port) \<and>
   (\<exists>ts suffix. ts \<noteq> [] \<and> (\<forall>t\<in>set ts. CHR '':'' \<notin> set t \<and> CHR ''/'' \<notin> set t) \<and>
      (suffix = [] \<or> hd suffix = CHR ''/'') \<and> s = Join ts '':'' @ suffix) \<and>
   (ts \<noteq> [] \<longrightarrow> (\<forall>t\<in>set ts. CHR '':'' \<notin> set t \<and> CHR ''/'' \<notin> set t) \<longrightarrow>
      (suffix = [] \<or> hd suffix = CHR ''/'') \<longrightarrow> s = Join ts '':'' @ suffix \<longrightarrow>
      extractHostPort s =
        Some (if length ts = 1 then ts ! 0
              else if length ts = 2 then ts ! 0
              else if length ts = 3 then ts ! 1
              else []))"
proof (intro conjI impI)
  let ?r = "takeWhile (\<lambda>c. c \<noteq> CHR ''/'') s"
  let ?parts = "Split ?r CHR '':''"
  have ne: "?parts \<noteq> []" by (rule Split_not_Nil)
  show "\<exists>port. extractHostPort s = Some port"
    by (rule extractHostPort_total)
  have "s = ?r @ dropWhile (\<lambda>c. c \<noteq> CHR ''/'') s" by simp
  moreover have "dropWhile (\<lambda>c. c \<noteq> CHR ''/'') s = [] \<or> hd (dropWhile (\<lambda>c. c \<noteq> CHR ''/'') s) = CHR ''/''"
    using hd_dropWhile [of "\<lambda>c. c \<noteq> CHR ''/''" s] by auto
  moreover have "Join ?parts '':'' = ?r" by (rule Join_Split)
  moreover have "\<forall>t\<in>set ?parts. CHR '':'' \<notin> set t \<and> CHR ''/'' \<notin> set t"
  proof
    fix t assume t: "t \<in> set ?parts"
    then have "CHR '':'' \<notin> set t" by (rule Split_no_sep)
    moreover have "set t \<subseteq> set ?r"
      using t set_Split_subset by blast
    ultimately show "CHR '':'' \<notin> set t \<and> CHR ''/'' \<notin> set t"
      by (auto dest: set_takeWhileD)
  qed
  ultimately show "\<exists>ts suffix. ts \<noteq> [] \<and> (\<forall>t\<in>set ts. CHR '':'' \<notin> set t \<and> CHR ''/'' \<notin> set t) \<and>
      (suffix = [] \<or> hd suffix = CHR ''/'') \<and> s = Join ts '':'' @ suffix"
    using ne by metis
next
  assume ts: "ts \<noteq> []" and tok: "\<forall>t\<in>set ts. CHR '':'' \<notin> set t \<and> CHR ''/'' \<notin> set t"
    and suf: "suffix = [] \<or> hd suffix = CHR ''/''" and s: "s = Join ts '':'' @ suffix"
  have "CHR ''/'' \<notin> set (Join ts '':'')" using tok tokens_no_slash by blast
  then have r: "takeWhile (\<lambda>c. c \<noteq> CHR ''/'') s = Join ts '':''"
    using suf s takeWhile_Join_suffix by blast
  have sp: "Split (Join ts '':'') CHR '':'' = ts"
    using Split_Join [OF ts, of "CHR '':''"] tok by simp
  show "extractHostPort s =
        Some (if length ts = 1 then ts ! 0
              else if length ts = 2 then ts ! 0
              else if length ts = 3 then ts ! 1
              else [])"
    by (simp add: extractHostPort_unfold r sp)
qed

theorem extractHostPort_tokens_witness:
  "extractHostPort ''127.0.0.1:9000:9000/udp'' = Some ''9000'' \<and>
   extractHostPort ''3000'' = Some ''3000'' \<and>
   extractHostPort ''3000:8080/tcp'' = Some ''3000'' \<and>
   extractHostPort ''a:b:c:d'' = Some []"
  using extractHostPort_tokens [of "''127.0.0.1:9000:9000/udp''" "[''127.0.0.1'', ''9000'', ''9000'']" "''/udp''"]
    extractHostPort_tokens [of "''3000''" "[''3000'']" "[]"]
    extractHostPort_tokens [of "''3000:8080/tcp''" "[''3000'', ''8080'']" "''/tcp''"]
    extractHostPort_tokens [of "''a:b:c:d''" "[''a'', ''b'', ''c'', ''d'']" "[]"]
  by simp

text \<open>
  The claim as written removes the text after the \<^emph>\<open>last\<close> \<open>/\<close>; the code keeps what
  precedes the first one, and the two differ as soon as the mapping holds two slashes.
\<close>

theorem extractHostPort_last_slash_counterexample:
  "extractHostPort ''80/tcp/udp'' = Some ''80'' \<and>
   extractHostPort_spec ''80/tcp/udp'' = ''80/tcp'' \<and>
   extractHostPort ''80/tcp/udp'' \<noteq> Some (extractHostPort_spec ''80/tcp/udp'')"
  by (simp add: extractHostPort_unfold extractHostPort_spec_def strip_after_last_slash_def)

section \<open>Image references\<close>

lemma LastIndex_None: "sep \<notin> set s \<Longrightarrow> LastIndex s sep = None"
  by (induction s) auto

lemma LastIndex_last:
  "sep \<notin> set rest \<Longrightarrow> LastIndex (pre @ sep # rest) sep = Some (length pre)"
  by (induction pre) (auto simp: LastIndex_None)

lemma LastIndex_cases:
  "(sep \<notin> set s \<and> LastIndex s sep = None) \<or>
   (\<exists>pre rest. s = pre @ sep # rest \<and> sep \<notin> set rest \<and> LastIndex s sep = Some (length pre))"
proof (cases "sep \<in> set s")
  case True
  then obtain pre rest where "s = pre @ sep # rest" "sep \<notin> set rest"
    by (meson split_list_last)
  then show ?thesis using LastIndex_last by blast
next
  case False
  then show ?thesis by (simp add: LastIndex_None)
qed

lemma extractImageInfo_parts:
  assumes "parts \<noteq> []"
  shows "(if length parts = 1 then
            (case index parts 0 of None \<Rightarrow> None | Some p \<Rightarrow> Some (p, p))
          else if length parts = 2 then
            (case index parts 0 of None \<Rightarrow> None
             | Some p \<Rightarrow> (case index parts 1 of None \<Rightarrow> None | Some q \<Rightarrow> Some (p, q)))
          else
            (case index parts (int (length parts) - 2) of None \<Rightarrow> None
             | Some p \<Rightarrow>
                 (case index parts (int (length parts) - 1) of None \<Rightarrow> None
                  | Some q \<Rightarrow> Some (p, q)))) =
         Some (if length parts = 1 then (parts ! 0, parts ! 0)
               else if length parts = 2 then (parts ! 0, parts ! 1)
               else (parts ! (length parts - 2), parts ! (length parts - 1)))"
proof -
  have "1 \<le> length parts" using assms by (cases parts) auto
  then have "length parts = 1 \<or> length parts = 2 \<or> length parts \<ge> 3" by arith
  then show ?thesis
    by (auto simp: index_def nat_diff_distrib)
qed

lemma extractImageInfo_unfold:
  assumes "img \<noteq> []"
    and "parts = Split (case LastIndex img CHR '':'' of
                 Some idx \<Rightarrow>
                   if \<not> Contains (drop idx img) CHR ''/'' then take idx img else img
               | None \<Rightarrow> img) CHR ''/''"
  shows "extractImageInfo img =
         Some (if length parts = 1 then (parts ! 0, parts ! 0)
               else if length parts = 2 then (parts ! 0, parts ! 1)
               else (parts ! (length parts - 2), parts ! (length parts - 1)))"
proof -
  have ne: "parts \<noteq> []" using assms(2) Split_not_Nil by simp
  show ?thesis
    unfolding extractImageInfo_def Let_def assms(2) [symmetric]
    using assms(1) extractImageInfo_parts [OF ne] by simp
qed

lemma stripped_no_colon:
  "CHR '':'' \<notin> set img \<Longrightarrow>
   (case LastIndex img CHR '':'' of
      Some idx \<Rightarrow> if \<not> Contains (drop idx img) CHR ''/'' then take idx img else img
    | None \<Rightarrow> img) = img"
  by (simp add: LastIndex_None)

lemma stripped_tag:
  "CHR '':'' \<notin> set tag \<Longrightarrow> CHR ''/'' \<notin> set tag \<Longrightarrow> img = pre @ CHR '':'' # tag \<Longrightarrow>
   (case LastIndex img CHR '':'' of
      Some idx \<Rightarrow> if \<not> Contains (drop idx img) CHR ''/'' then take idx img else img
    | None \<Rightarrow> img) = pre"
  by (simp add: LastIndex_last Contains_def)

lemma stripped_port:
  "CHR '':'' \<notin> set rest \<Longrightarrow> CHR ''/'' \<in> set rest \<Longrightarrow> img = pre @ CHR '':'' # rest \<Longrightarrow>
   (case LastIndex img CHR '':'' of
      Some idx \<Rightarrow> if \<not> Contains (drop idx img) CHR ''/'' then take idx img else img
    | None \<Rightarrow> img) = img"
  by (simp add: LastIndex_last Contains_def)

lemma extractImageInfo_total: "\<exists>org name. extractImageInfo img = Some (org, name)"
proof (cases "img = []")
  case True
  then show ?thesis by (simp add: extractImageInfo_def)
next
  case False
  from extractImageInfo_unfold [OF False refl] show ?thesis
    by (simp add: Let_def)
qed

text \<open>
  Claim C2.  \<open>extractImageInfo\<close> never panics; the empty reference gives two empty
  strings.  A non-empty reference is read in one of three shapes: it has no colon; or the
  text \<open>rest\<close> after its last colon contains a \<open>/\<close> (a registry port), and nothing is
  removed; or the text \<open>tag\<close> after its last colon has no \<open>/\<close>, and the colon and the
  tag are removed.  What is left is a sequence \<open>segs\<close> of one or more segments free of
  \<open>/\<close>, joined by \<open>/\<close>: one segment is both organisation and name, two segments are
  organisation and name, and of three or more the last two are.
\<close>

theorem extractImageInfo_segments:
  "extractImageInfo [] = Some ([], []) \<and>
   (\<exists>org name. extractImageInfo img = Some (org, name)) \<and>
   (img \<noteq> [] \<longrightarrow> segs \<noteq> [] \<longrightarrow> (\<forall>t\<in>set segs. CHR ''/'' \<notin> set t) \<longrightarrow>
      (CHR '':'' \<notin> set img \<and> img = Join segs ''/'' \<or>
       CHR '':'' \<notin> set rest \<and> CHR ''/'' \<in> set rest \<and> img = pre @ CHR '':'' # rest \<and>
         img = Join segs ''/'' \<or>
       CHR '':'' \<notin> set tag \<and> CHR ''/'' \<notin> set tag \<and> img = Join segs ''/'' @ CHR '':'' # tag) \<longrightarrow>
      extractImageInfo img =
        Some (if length segs = 1 then (segs ! 0, segs ! 0)
              else if length segs = 2 then (segs ! 0, segs ! 1)
              else (segs ! (length segs - 2), last segs)))"
proof (intro conjI impI)
  show "extractImageInfo [] = Some ([], [])" by (simp add: extractImageInfo_def)
  show "\<exists>org name. extractImageInfo img = Some (org, name)"
    by (rule extractImageInfo_total)
next
  let ?stripped = "case LastIndex img CHR '':'' of
      Some idx \<Rightarrow> if \<not> Contains (drop idx img) CHR ''/'' then take idx img else img
    | None \<Rightarrow> img"
  assume ne: "img \<noteq> []" and segs: "segs \<noteq> []" and tok: "\<forall>t\<in>set segs. CHR ''/'' \<notin> set t"
    and shape: "CHR '':'' \<notin> set img \<and> img = Join segs ''/'' \<or>
       CHR '':'' \<notin> set rest \<and> CHR ''/'' \<in> set rest \<and> img = pre @ CHR '':'' # rest \<and>
         img = Join segs ''/'' \<or>
       CHR '':'' \<notin> set tag \<and> CHR ''/'' \<notin> set tag \<and> img = Join segs ''/'' @ CHR '':'' # tag"
  from shape have "?stripped = Join segs ''/''"
  proof (elim disjE conjE)
    assume a: "CHR '':'' \<notin> set img" "img = Join segs ''/''"
    from stripped_no_colon [OF a(1)] a(2) show ?thesis by (rule trans)
  next
    assume a: "CHR '':'' \<notin> set rest" "CHR ''/'' \<in> set rest" "img = pre @ CHR '':'' # rest"
      "img = Join segs ''/''"
    from stripped_port [OF a(1,2,3)] a(4) show ?thesis by (rule trans)
  next
    assume a: "CHR '':'' \<notin> set tag" "CHR ''/'' \<notin> set tag" "img = Join segs ''/'' @ CHR '':'' # tag"
    from stripped_tag [OF a] show ?thesis .
  qed
  then have "Split ?stripped CHR ''/'' = segs"
    using Split_Join [OF segs, of "CHR ''/''"] tok by (simp only: )
  from extractImageInfo_unfold [OF ne this [symmetric]] segs
  show "extractImageInfo img =
        Some (if length segs = 1 then (segs ! 0, segs ! 0)
              else if length segs = 2 then (segs ! 0, segs ! 1)
              else (segs ! (length segs - 2), last segs))"
    by (simp add: last_conv_nth)
qed

theorem extractImageInfo_segments_witness:
  "extractImageInfo ''registry.cn-guangzhou.aliyuncs.com/fnapp/trim-chromium:latest'' =
     Some (''fnapp'', ''trim-chromium'') \<and>
   extractImageInfo ''localhost:5000/nginx'' = Some (''localhost:5000'', ''nginx'') \<and>
   extractImageInfo ''alpine'' = Some (''alpine'', ''alpine'')"
proof (intro conjI)
  show "extractImageInfo ''registry.cn-guangzhou.aliyuncs.com/fnapp/trim-chromium:latest'' =
     Some (''fnapp'', ''trim-chromium'')"
    using extractImageInfo_segments [of
      "''registry.cn-guangzhou.aliyuncs.com/fnapp/trim-chromium:latest''"
      "[''registry.cn-guangzhou.aliyuncs.com'', ''fnapp'', ''trim-chromium'']"
      "[]" "[]" "''latest''"]
    by simp
  show "extractImageInfo ''localhost:5000/nginx'' = Some (''localhost:5000'', ''nginx'')"
    using extractImageInfo_segments [of "''localhost:5000/nginx''" "[''localhost:5000'', ''nginx'']"
      "''5000/nginx''" "''localhost''" "[]"]
    by simp
  show "extractImageInfo ''alpine'' = Some (''alpine'', ''alpine'')"
    using extractImageInfo_segments [of "''alpine''" "[''alpine'']" "[]" "[]" "[]"]
    by simp
qed

section \<open>Variable extraction\<close>

lemma index_sort_0:
  assumes "n \<in> set xs" "\<forall>m\<in>set xs. n \<le> m"
  shows "index (sort xs) 0 = Some (n::'a::linorder)"
proof -
  have ne: "sort xs \<noteq> []" using assms(1) by (metis empty_iff empty_set set_sort)
  then obtain y ys where ys: "sort xs = y # ys" by (cases "sort xs") auto
  have "sorted (sort xs)" by simp
  then have "sorted (y # ys)" using ys by simp
  then have "\<forall>m\<in>set (y # ys). y \<le> m" by auto
  moreover have s: "set (y # ys) = set xs" using ys by (metis set_sort)
  ultimately have "y \<le> n" "n \<le> y" using assms by auto
  then have "y = n" by simp
  then show ?thesis using ys by (simp add: index_def)
qed

lemma ExtractVariables_unfold:
  assumes d: "distinct (map fst services)" and mem: "(n, svc) \<in> set services"
    and least: "\<forall>n'\<in>fst ` set services. n \<le> n'"
  shows "ExtractVariables services =
     (case (if length (Ports svc) > 0
                    then (case index (Ports svc) 0 of
                            None \<Rightarrow> None | Some p \<Rightarrow> extractHostPort p)
                    else Some []) of
                None \<Rightarrow> None
              | Some firstPort \<Rightarrow>
                  (case extractImageInfo (Image svc) of
                     None \<Rightarrow> None
                   | Some (org, name) \<Rightarrow>
                       Some \<lparr>ServiceName = n, ContainerName = (if Service.ContainerName svc \<noteq> []
                   then Service.ContainerName svc else n),
                         FirstPort = firstPort, ImageOrg = org, ImageName = name\<rparr>))"
proof -
  have ne: "services \<noteq> []" using mem by auto
  have "n \<in> set (map fst services)" using mem by force
  then have i: "index (sort (map fst services)) 0 = Some n"
    using least by (intro index_sort_0) auto
  have m: "map_of services n = Some svc" using d mem by simp
  show ?thesis
    unfolding ExtractVariables_def Let_def i option.case m
    using ne by simp
qed

text \<open>
  Claim C7.  With no service \<open>ExtractVariables\<close> returns the all-empty variables, without
  a panic.  Otherwise, for the service \<open>(n, svc)\<close> whose name is least in the byte-wise
  lexicographic order, it returns variables with \<open>ServiceName = n\<close>, the container name
  of \<open>svc\<close> or else \<open>n\<close>, the host port of the first port mapping or else the empty
  string, and the organisation and name of the image of \<open>svc\<close>.  The order in which the
  map is iterated plays no part: two lists with the same entries give the same result.
\<close>

theorem ExtractVariables_first_sorted:
  "ExtractVariables [] = Some no_Variables \<and>
   (distinct (map fst services) \<longrightarrow> (n, svc) \<in> set services \<longrightarrow>
      (\<forall>n'\<in>fst ` set services. n \<le> n') \<longrightarrow>
      (\<exists>vars. ExtractVariables services = Some vars \<and>
         ServiceName vars = n \<and>
         Variables.ContainerName vars =
           (if Service.ContainerName svc \<noteq> [] then Service.ContainerName svc else n) \<and>
         (case Ports svc of [] \<Rightarrow> FirstPort vars = []
          | p # ps \<Rightarrow> extractHostPort p = Some (FirstPort vars)) \<and>
         extractImageInfo (Image svc) = Some (ImageOrg vars, ImageName vars))) \<and>
   (distinct (map fst services) \<longrightarrow> distinct (map fst services') \<longrightarrow>
      set services' = set services \<longrightarrow> ExtractVariables services' = ExtractVariables services)"
proof (intro conjI impI)
  show "ExtractVariables [] = Some no_Variables" by (simp add: ExtractVariables_def)
next
  assume d: "distinct (map fst services)" and mem: "(n, svc) \<in> set services"
    and least: "\<forall>n'\<in>fst ` set services. n \<le> n'"
  obtain org name where img: "extractImageInfo (Image svc) = Some (org, name)"
    using extractImageInfo_total [of "Image svc"] by blast
  show "\<exists>vars. ExtractVariables services = Some vars \<and>
         ServiceName vars = n \<and>
         Variables.ContainerName vars =
           (if Service.ContainerName svc \<noteq> [] then Service.ContainerName svc else n) \<and>
         (case Ports svc of [] \<Rightarrow> FirstPort vars = []
          | p # ps \<Rightarrow> extractHostPort p = Some (FirstPort vars)) \<and>
         extractImageInfo (Image svc) = Some (ImageOrg vars, ImageName vars)"
  proof (cases "Ports svc")
    case Nil
    then show ?thesis
      unfolding ExtractVariables_unfold [OF d mem least] by (simp add: img)
  next
    case (Cons p ps)
    obtain port where "extractHostPort p = Some port"
      using extractHostPort_total by blast
    with Cons show ?thesis
      unfolding ExtractVariables_unfold [OF d mem least] by (simp add: img index_def)
  qed
next
  assume d: "distinct (map fst services)" and d': "distinct (map fst services')"
    and eq: "set services' = set services"
  have "set (map fst services') = set (map fst services)"
    using eq by simp
  then have s: "sort (map fst services') = sort (map fst services)"
    using d d' by (intro sorted_distinct_set_unique) simp_all
  have m: "map_of services' = map_of services"
    using d d' eq by (simp add: map_of_inject_set)
  have l: "(length services' = 0) = (length services = 0)"
    using eq by (metis length_0_conv set_empty)
  show "ExtractVariables services' = ExtractVariables services"
    unfolding ExtractVariables_def s m l ..
qed

theorem ExtractVariables_first_sorted_witness:
  "(\<exists>vars. ExtractVariables
       [(''web'', \<lparr>Image = ''nginx:1.2'', ContainerName = [], Ports = [''8080:80'']\<rparr>),
        (''db'', \<lparr>Image = ''lib/pg'', ContainerName = ''pg'', Ports = []\<rparr>)] = Some vars \<and>
      ServiceName vars = ''db'' \<and> Variables.ContainerName vars = ''pg'' \<and> FirstPort vars = [] \<and>
      extractImageInfo ''lib/pg'' = Some (ImageOrg vars, ImageName vars)) \<and>
   ExtractVariables
       [(''db'', \<lparr>Image = ''lib/pg'', ContainerName = ''pg'', Ports = []\<rparr>),
        (''web'', \<lparr>Image = ''nginx:1.2'', ContainerName = [], Ports = [''8080:80'']\<rparr>)] =
   ExtractVariables
       [(''web'', \<lparr>Image = ''nginx:1.2'', ContainerName = [], Ports = [''8080:80'']\<rparr>),
        (''db'', \<lparr>Image = ''lib/pg'', ContainerName = ''pg'', Ports = []\<rparr>)]"
proof -
  let ?web = "\<lparr>Image = ''nginx:1.2'', ContainerName = [], Ports = [''8080:80'']\<rparr>"
  let ?db = "\<lparr>Image = ''lib/pg'', ContainerName = ''pg'', Ports = []\<rparr>"
  let ?a = "[(''web'', ?web), (''db'', ?db)]"
  let ?b = "[(''db'', ?db), (''web'', ?web)]"
  have d: "distinct (map fst ?a)" by simp
  have d': "distinct (map fst ?b)" by simp
  have mem: "(''db'', ?db) \<in> set ?a" by simp
  have least: "\<forall>n'\<in>fst ` set ?a. ''db'' \<le> n'" by simp
  have eq: "set ?b = set ?a" by (simp add: insert_commute)
  note t = ExtractVariables_first_sorted [of ?a "''db''" ?db ?b]
  from t d mem least have
    "\<exists>vars. ExtractVariables ?a = Some vars \<and> ServiceName vars = ''db'' \<and>
       Variables.ContainerName vars =
         (if Service.ContainerName ?db \<noteq> [] then Service.ContainerName ?db else ''db'') \<and>
       (case Ports ?db of [] \<Rightarrow> FirstPort vars = []
        | p # ps \<Rightarrow> extractHostPort p = Some (FirstPort vars)) \<and>
       extractImageInfo (Image ?db) = Some (ImageOrg vars, ImageName vars)"
    by blast
  then have "\<exists>vars. ExtractVariables ?a = Some vars \<and> ServiceName vars = ''db'' \<and>
       Variables.ContainerName vars = ''pg'' \<and> FirstPort vars = [] \<and>
       extractImageInfo ''lib/pg'' = Some (ImageOrg vars, ImageName vars)"
    by simp
  moreover from t d d' eq have "ExtractVariables ?b = ExtractVariables ?a" by blast
  ultimately show ?thesis by (rule conjI)
qed

section \<open>The manifest text\<close>

lemma distinct_fold_update:
  "distinct (map fst r) \<Longrightarrow>
   distinct (map fst (fold (\<lambda>(key, val) result. AList.update key (f key val) result) m r))"
proof (induction m arbitrary: r)
  case Nil
  then show ?case by simp
next
  case (Cons kv m)
  obtain k v where kv: "kv = (k, v)" by (cases kv)
  have "distinct (map fst (AList.update k (f k v) r))"
    using Cons.prems by (rule distinct_update)
  from Cons.IH [OF this] show ?case by (simp add: kv)
qed

lemma distinct_default_values: "distinct (map fst default_values)"
  unfolding default_values_def by (rule distinct_fold_update) simp

lemma distinct_variable_defaults:
  "distinct (map fst r) \<Longrightarrow> distinct (map fst (variable_defaults vars r))"
  unfolding variable_defaults_def Let_def by (simp add: distinct_update)

lemma distinct_manifest_values:
  "distinct (map fst r) \<Longrightarrow> distinct (map fst (manifest_values orders manifest vars r))"
  unfolding manifest_values_def by (rule distinct_fold_update)

lemma distinct_launch_name:
  "distinct (map fst r) \<Longrightarrow> distinct (map fst (launch_name manifest r))"
  unfolding launch_name_def by (simp add: distinct_update split: option.split)

lemma distinct_resolved: "distinct (map fst (resolved orders manifest vars))"
  unfolding resolved_def
  by (intro distinct_launch_name distinct_manifest_values distinct_variable_defaults
      distinct_default_values)

lemma rune_size_pos: "s \<noteq> [] \<Longrightarrow> 0 < rune_size s"
  by (auto simp: rune_size_def split: list.splits option.splits prod.splits)

lemma length_runes: "length (runes s) \<le> length s"
proof (induction s rule: runes.induct)
  case (1 s)
  show ?case
  proof (cases "s = []")
    case True
    then show ?thesis by (subst runes.simps) simp
  next
    case False
    with 1 have ih: "length (runes (drop (rune_size s) s)) \<le> length s - rune_size s" by simp
    have p: "0 < rune_size s" and l: "0 < length s" using False rune_size_pos by auto
    from ih p l have "Suc (length (runes (drop (rune_size s) s))) \<le> length s" by arith
    then show ?thesis using False by (subst runes.simps) simp
  qed
qed

lemma RuneCountInString_le: "RuneCountInString s \<le> length s"
  by (simp add: RuneCountInString_def length_runes)

lemma formatManifestLine_short:
  "length key < 16 \<Longrightarrow>
   \<exists>n. formatManifestLine key val = key @ replicate n CHR '' '' @ ''= '' @ val \<and>
       RuneCountInString key + n = 16"
  using RuneCountInString_le [of key]
  by (auto simp: formatManifestLine_def pad_right_def)

lemma formatManifestLine_long:
  "16 \<le> length key \<Longrightarrow> formatManifestLine key val = key @ '' = '' @ val"
  by (simp add: formatManifestLine_def)

lemma fold_defined_order:
  "fold (\<lambda>key (lines, addedKeys).
                    case map_of result key of
                      Some val \<Rightarrow>
                        if val \<noteq> [] then
                          (lines @ [formatManifestLine key val], addedKeys(key := True))
                        else (lines, addedKeys)
                    | None \<Rightarrow> (lines, addedKeys)) ks (lines, addedKeys) =
   (lines @ map (\<lambda>key. formatManifestLine key (lookup result key))
              (filter (\<lambda>key. lookup result key \<noteq> []) ks),
    \<lambda>key. addedKeys key \<or> (key \<in> set ks \<and> lookup result key \<noteq> []))"
proof (induction ks arbitrary: lines addedKeys)
  case Nil
  then show ?case by simp
next
  case (Cons k ks)
  show ?case
    by (cases "map_of result k") (auto simp: Cons lookup_def fun_eq_iff)
qed

lemma fold_remaining:
  "fold (\<lambda>key lines. lines @ [f key]) ks lines = lines @ map f ks"
  by (induction ks arbitrary: lines) auto

lemma emit_layout:
  assumes "distinct (map fst result)"
  shows "emit result =
     Join (map (\<lambda>key. formatManifestLine key (lookup result key))
        (filter (\<lambda>key. lookup result key \<noteq> []) ManifestFieldOrder @
         sorted_list_of_set {key \<in> fst ` set result.
            key \<notin> set ManifestFieldOrder \<and> lookup result key \<noteq> []})) [CHR 0x0A] @ [CHR 0x0A]"
proof -
  let ?P = "\<lambda>key. lookup result key \<noteq> []"
  have s: "sort (filter (\<lambda>key. \<not> (False \<or> (key \<in> set ManifestFieldOrder \<and> ?P key)) \<and> ?P key) (map fst result)) =
    sorted_list_of_set {key \<in> fst ` set result. key \<notin> set ManifestFieldOrder \<and> ?P key}"
    (is "sort ?l = sorted_list_of_set ?S")
  proof -
    have d: "distinct ?l" using assms by (rule distinct_filter)
    have e: "set ?l = ?S" unfolding set_filter set_map by blast
    have "sorted_list_of_set (set ?l) = sort (remdups ?l)"
      by (rule sorted_list_of_set_sort_remdups)
    with d e show ?thesis by (simp only: distinct_remdups_id)
  qed
  show ?thesis
    unfolding emit_def fold_defined_order Let_def prod.case fold_remaining s
    by (simp only: append_Nil map_append)
qed

text \<open>
  Claim C4, as amended.  The manifest is the sequence of its lines, joined by newlines and
  followed by one more newline.  The lines are those of the keys of the defined order
  whose resolved value is not empty, in that order, followed by those of all other keys
  with a non-empty value, in ascending byte-wise lexicographic order.  A key shorter than
  16 bytes is followed by spaces up to a column of 16 characters and by \<open>=\<close> and a
  space; a key of 16 bytes or more is written in full, never truncated, and followed by
  one space, \<open>=\<close> and a space.
\<close>

theorem GenerateManifest_layout:
  "GenerateManifest orders manifest vars =
     Join (map (\<lambda>key. formatManifestLine key (lookup (resolved orders manifest vars) key))
        (filter (\<lambda>key. lookup (resolved orders manifest vars) key \<noteq> []) ManifestFieldOrder @
         sorted_list_of_set {key \<in> fst ` set (resolved orders manifest vars).
            key \<notin> set ManifestFieldOrder \<and> lookup (resolved orders manifest vars) key \<noteq> []}))
       [CHR 0x0A] @ [CHR 0x0A] \<and>
   (length key < 16 \<longrightarrow>
      (\<exists>n. formatManifestLine key val = key @ replicate n CHR '' '' @ ''= '' @ val \<and>
         RuneCountInString key + n = 16)) \<and>
   (16 \<le> length key \<longrightarrow> formatManifestLine key val = key @ '' = '' @ val)"
  unfolding GenerateManifest_def
  using emit_layout [OF distinct_resolved] formatManifestLine_short formatManifestLine_long
  by blast

theorem GenerateManifest_layout_witness:
  "GenerateManifest (\<lambda>key. [''${SERVICE_NAME}'', ''${CONTAINER_NAME}'', ''${FIRST_PORT}''])
     [(''zeta'', VInt 7), (''appname'', VString ''docker-chromium''), (''alpha'', VBool True)]
     \<lparr>ServiceName = ''chromium'', ContainerName = ''chromium'', FirstPort = ''3000'',
        ImageOrg = [], ImageName = []\<rparr> =
     ''appname         = docker-chromium'' @ [CHR 0x0A] @
     ''version         = 1.0.0'' @ [CHR 0x0A] @
     ''display_name    = chromium'' @ [CHR 0x0A] @
     ''desc            = chromium'' @ [CHR 0x0A] @
     ''arch            = x86_64'' @ [CHR 0x0A] @
     ''source          = thirdparty'' @ [CHR 0x0A] @
     ''desktop_uidir   = ui'' @ [CHR 0x0A] @
     ''desktop_applaunchname = docker-chromium.Application'' @ [CHR 0x0A] @
     ''service_port    = 3000'' @ [CHR 0x0A] @
     ''alpha           = yes'' @ [CHR 0x0A] @
     ''zeta            = 7'' @ [CHR 0x0A] \<and>
   (\<exists>n. formatManifestLine ''appname'' ''x'' = ''appname'' @ replicate n CHR '' '' @ ''= x'' \<and>
      RuneCountInString ''appname'' + n = 16) \<and>
   formatManifestLine ''desktop_applaunchname'' ''x'' = ''desktop_applaunchname = x''"
proof -
  let ?orders = "\<lambda>key::string. [''${SERVICE_NAME}'', ''${CONTAINER_NAME}'', ''${FIRST_PORT}'']"
  let ?m = "[(''zeta'', VInt 7), (''appname'', VString ''docker-chromium''), (''alpha'', VBool True)]"
  let ?v = "\<lparr>ServiceName = ''chromium'', ContainerName = ''chromium'', FirstPort = ''3000'',
        ImageOrg = [], ImageName = []\<rparr>"
  note t = GenerateManifest_layout [of ?orders ?m ?v]
  have r: "resolved ?orders ?m ?v =
    [(''arch'', ''x86_64''), (''source'', ''thirdparty''), (''desktop_uidir'', ''ui''),
     (''version'', ''1.0.0''), (''appname'', ''docker-chromium''), (''display_name'', ''chromium''),
     (''desktop_applaunchname'', ''docker-chromium.Application''), (''desc'', ''chromium''),
     (''service_port'', ''3000''), (''zeta'', ''7''), (''alpha'', ''yes'')]"
    by code_simp
  have a: "GenerateManifest ?orders ?m ?v =
     Join (map (\<lambda>key. formatManifestLine key (lookup (resolved ?orders ?m ?v) key))
        (filter (\<lambda>key. lookup (resolved ?orders ?m ?v) key \<noteq> []) ManifestFieldOrder @
         sorted_list_of_set {key \<in> fst ` set (resolved ?orders ?m ?v).
            key \<notin> set ManifestFieldOrder \<and> lookup (resolved ?orders ?m ?v) key \<noteq> []}))
       [CHR 0x0A] @ [CHR 0x0A]"
    using t [of "[]" "[]"] by (rule conjunct1)
  have b: "Join (map (\<lambda>key. formatManifestLine key (lookup (resolved ?orders ?m ?v) key))
        (filter (\<lambda>key. lookup (resolved ?orders ?m ?v) key \<noteq> []) ManifestFieldOrder @
         sorted_list_of_set {key \<in> fst ` set (resolved ?orders ?m ?v).
            key \<notin> set ManifestFieldOrder \<and> lookup (resolved ?orders ?m ?v) key \<noteq> []}))
       [CHR 0x0A] @ [CHR 0x0A] =
     ''appname         = docker-chromium'' @ [CHR 0x0A] @
     ''version         = 1.0.0'' @ [CHR 0x0A] @
     ''display_name    = chromium'' @ [CHR 0x0A] @
     ''desc            = chromium'' @ [CHR 0x0A] @
     ''arch            = x86_64'' @ [CHR 0x0A] @
     ''source          = thirdparty'' @ [CHR 0x0A] @
     ''desktop_uidir   = ui'' @ [CHR 0x0A] @
     ''desktop_applaunchname = docker-chromium.Application'' @ [CHR 0x0A] @
     ''service_port    = 3000'' @ [CHR 0x0A] @
     ''alpha           = yes'' @ [CHR 0x0A] @
     ''zeta            = 7'' @ [CHR 0x0A]"
    unfolding r by code_simp
  have c: "\<exists>n. formatManifestLine ''appname'' ''x'' = ''appname'' @ replicate n CHR '' '' @ ''= x'' \<and>
      RuneCountInString ''appname'' + n = 16"
    using t [of "''appname''" "''x''"] by simp
  have d: "formatManifestLine ''desktop_applaunchname'' ''x'' = ''desktop_applaunchname = x''"
    using t [of "''desktop_applaunchname''" "''x''"] by simp
  from a b c d show ?thesis by (simp only: simp_thms)
qed

text \<open>
  The claim as written has the key truncated to the column of 16 characters; the code
  writes a longer key in full, as for the key \<open>desktop_applaunchname\<close> of the defined
  order.
\<close>

theorem formatManifestLine_truncation_counterexample:
  "GenerateManifest (\<lambda>key. [''${SERVICE_NAME}'', ''${CONTAINER_NAME}'', ''${FIRST_PORT}'']) []
     \<lparr>ServiceName = ''web'', ContainerName = ''web'', FirstPort = [],
        ImageOrg = [], ImageName = []\<rparr> =
     ''appname         = web'' @ [CHR 0x0A] @
     ''version         = 1.0.0'' @ [CHR 0x0A] @
     ''display_name    = web'' @ [CHR 0x0A] @
     ''desc            = web'' @ [CHR 0x0A] @
     ''arch            = x86_64'' @ [CHR 0x0A] @
     ''source          = thirdparty'' @ [CHR 0x0A] @
     ''desktop_uidir   = ui'' @ [CHR 0x0A] @
     ''desktop_applaunchname = web.Application'' @ [CHR 0x0A] \<and>
   formatManifestLine ''desktop_applaunchname'' ''web.Application'' =
     ''desktop_applaunchname = web.Application'' \<and>
   formatManifestLine_spec ''desktop_applaunchname'' ''web.Application'' =
     ''desktop_applaunc = web.Application'' \<and>
   formatManifestLine ''desktop_applaunchname'' ''web.Application'' \<noteq>
     formatManifestLine_spec ''desktop_applaunchname'' ''web.Application''"
  by code_simp

section \<open>Determinism of the manifest\<close>

text \<open>
  Claim C3.  The manifest text depends on the order in which \<open>ReplaceVariables\<close> visits
  its map of replacements, an order that Go chooses at run time: a value in which one
  placeholder appears only after another one has been replaced is substituted in one order
  and left alone in the other.  Here the service \<open>web\<close> publishes no port, and the
  description is \<open>${SERVICE_${FIRST_PORT}NAME}\<close>; two runs on this one input can write two
  different manifests.
\<close>

theorem GenerateManifest_iteration_order:
  "GenerateManifest (\<lambda>key. [''${SERVICE_NAME}'', ''${CONTAINER_NAME}'', ''${FIRST_PORT}''])
     [(''desc'', VString ''${SERVICE_${FIRST_PORT}NAME}'')]
     \<lparr>ServiceName = ''web'', ContainerName = ''web'', FirstPort = [],
        ImageOrg = [], ImageName = []\<rparr> \<noteq>
   GenerateManifest (\<lambda>key. [''${FIRST_PORT}'', ''${CONTAINER_NAME}'', ''${SERVICE_NAME}''])
     [(''desc'', VString ''${SERVICE_${FIRST_PORT}NAME}'')]
     \<lparr>ServiceName = ''web'', ContainerName = ''web'', FirstPort = [],
        ImageOrg = [], ImageName = []\<rparr>"
  by code_simp

section \<open>The application name\<close>

lemma map_of_manifest_values:
  "distinct (map fst manifest) \<Longrightarrow>
   map_of (manifest_values orders manifest vars r) k =
     (case map_of manifest k of
        Some v \<Rightarrow> Some (ReplaceVariables (orders k) (formatManifestValue v) vars)
      | None \<Rightarrow> map_of r k)"
  unfolding manifest_values_def
proof (induction manifest arbitrary: r)
  case Nil
  then show ?case by simp
next
  case (Cons kv m)
  obtain k' v' where kv: "kv = (k', v')" by (cases kv)
  from Cons.prems kv have d: "distinct (map fst m)" and n: "k' \<notin> fst ` set m" by auto
  have none: "map_of m k' = None" using n by (simp add: map_of_eq_None_iff)
  show ?case
    using Cons.IH [OF d] none by (auto simp: kv update_conv' split: option.splits)
qed

lemma map_of_launch_name_appname:
  "map_of (launch_name manifest r) ''appname'' = map_of r ''appname''"
  unfolding launch_name_def by (simp add: update_conv' split: option.split)

lemma lookup_resolved_appname:
  assumes "distinct (map fst manifest)" "map_of manifest ''appname'' = Some a"
  shows "lookup (resolved orders manifest vars) ''appname'' =
     ReplaceVariables (orders ''appname'') (formatManifestValue a) vars"
  unfolding lookup_def resolved_def map_of_launch_name_appname
    map_of_manifest_values [OF assms(1)] assms(2)
  by simp

lemma Join_Cons_newline:
  "\<exists>rest. Join (l # ls) sep @ sep = l @ sep @ rest"
  by (cases ls) auto

lemma formatManifestLine_appname:
  "formatManifestLine ''appname'' val = ''appname         = '' @ val"
proof -
  have "RuneCountInString ''appname'' = 7" by code_simp
  then show ?thesis by (simp add: formatManifestLine_def pad_right_def eval_nat_numeral)
qed

lemma emit_appname_first:
  assumes "distinct (map fst result)" "lookup result ''appname'' \<noteq> []"
  shows "\<exists>rest. emit result =
     ''appname         = '' @ lookup result ''appname'' @ [CHR 0x0A] @ rest"
proof -
  have "filter (\<lambda>key. lookup result key \<noteq> []) ManifestFieldOrder =
      ''appname'' # filter (\<lambda>key. lookup result key \<noteq> []) (tl ManifestFieldOrder)"
    using assms(2) by (simp add: ManifestFieldOrder_def)
  then show ?thesis
    unfolding emit_layout [OF assms(1)]
    using Join_Cons_newline [of "formatManifestLine ''appname'' (lookup result ''appname'')" _ "[CHR 0x0A]"]
    by (simp add: formatManifestLine_appname)
qed

lemma HasPrefix_append: "HasPrefix s old \<Longrightarrow> s = old @ drop (length old) s"
  unfolding HasPrefix_def by (metis append_take_drop_id)

lemma replace_nonempty_count_le:
  assumes "c \<in> set old" "c \<notin> set new"
  shows "count_list (replace_nonempty s old new) c \<le> count_list s c"
  using assms
proof (induction s old new rule: replace_nonempty.induct)
  case (1 s old new)
  show ?case
  proof (cases "s = [] \<or> old = []")
    case True
    then show ?thesis by (subst replace_nonempty.simps) simp
  next
    case False
    show ?thesis
    proof (cases "HasPrefix s old")
      case True
      from HasPrefix_append [OF True]
      have "count_list s c = count_list old c + count_list (drop (length old) s) c"
        by (metis count_list_append)
      moreover have "count_list (replace_nonempty (drop (length old) s) old new) c
          \<le> count_list (drop (length old) s) c"
        using 1(1) [OF False True] 1(3,4) by simp
      moreover have "count_list new c = 0" using 1(4) by (simp add: count_list_0_iff)
      ultimately show ?thesis
        using False True by (subst replace_nonempty.simps) simp
    next
      case nop: False
      obtain x xs where s: "s = x # xs" using False by (cases s) auto
      have "count_list (replace_nonempty (tl s) old new) c \<le> count_list (tl s) c"
        using 1(2) [OF False nop] 1(3,4) by simp
      then show ?thesis
        using False nop s by (subst replace_nonempty.simps) simp
    qed
  qed
qed

lemma replace_nonempty_count_less:
  assumes "c \<in> set old" "c \<notin> set new"
  shows "s = pre @ old @ post \<Longrightarrow>
    count_list (replace_nonempty s old new) c < count_list s c"
proof (induction pre arbitrary: s)
  case Nil
  have ne: "old \<noteq> []" using assms(1) by auto
  then have s: "s \<noteq> []" using Nil by simp
  have hp: "HasPrefix s old" using Nil by (simp add: HasPrefix_def)
  have d: "drop (length old) s = post" using Nil by simp
  have "count_list (replace_nonempty post old new) c \<le> count_list post c"
    using assms by (rule replace_nonempty_count_le)
  moreover have "count_list new c = 0" using assms(2) by (simp add: count_list_0_iff)
  moreover have "0 < count_list old c" using assms(1) count_list_0_iff [of old c] by auto
  moreover have "count_list s c = count_list old c + count_list post c"
    using Nil by simp
  ultimately show ?case
    using ne s hp d by (subst replace_nonempty.simps) simp
next
  case (Cons x pre)
  have ne: "old \<noteq> []" using assms(1) by auto
  have s: "s \<noteq> []" using Cons.prems by simp
  show ?case
  proof (cases "HasPrefix s old")
    case True
    from HasPrefix_append [OF True]
    have "count_list s c = count_list old c + count_list (drop (length old) s) c"
      by (metis count_list_append)
    moreover have "count_list (replace_nonempty (drop (length old) s) old new) c
        \<le> count_list (drop (length old) s) c"
      using assms by (rule replace_nonempty_count_le)
    moreover have "count_list new c = 0" using assms(2) by (simp add: count_list_0_iff)
    moreover have "0 < count_list old c" using assms(1) count_list_0_iff [of old c] by auto
    ultimately show ?thesis
      using ne s True by (subst replace_nonempty.simps) simp
  next
    case False
    define s' where "s' = pre @ old @ post"
    have sx: "s = x # s'" using Cons.prems by (simp add: s'_def)
    have lt: "count_list (replace_nonempty s' old new) c < count_list s' c"
      using Cons.IH [of s'] by (simp add: s'_def)
    have "replace_nonempty s old new = x # replace_nonempty s' old new"
      using ne False sx by (subst replace_nonempty.simps) simp
    with lt show ?thesis by (simp add: sx)
  qed
qed

lemma replace_nonempty_absent:
  "\<not> (\<exists>pre post. s = pre @ old @ post) \<Longrightarrow> replace_nonempty s old new = s"
proof (induction s old new rule: replace_nonempty.induct)
  case (1 s old new)
  show ?case
  proof (cases "s = [] \<or> old = []")
    case True
    then show ?thesis by (subst replace_nonempty.simps) simp
  next
    case False
    have nop: "\<not> HasPrefix s old"
    proof
      assume "HasPrefix s old"
      from HasPrefix_append [OF this] have "s = [] @ old @ drop (length old) s" by simp
      with 1(3) show False by blast
    qed
    obtain x xs where s: "s = x # xs" using False by (cases s) auto
    have "\<not> (\<exists>pre post. tl s = pre @ old @ post)"
    proof
      assume "\<exists>pre post. tl s = pre @ old @ post"
      then obtain pre post where "tl s = pre @ old @ post" by blast
      then have "s = (x # pre) @ old @ post" using s by simp
      with 1(3) show False by blast
    qed
    from 1(2) [OF False nop this] show ?thesis
      using False nop s by (subst replace_nonempty.simps) simp
  qed
qed

lemma ReplaceAll_nonempty:
  "c \<in> set old \<Longrightarrow> c \<notin> set new \<Longrightarrow> ReplaceAll s old new = replace_nonempty s old new"
  by (auto simp: ReplaceAll_def)

lemma ReplaceVariables_count_le:
  assumes "\<forall>(k, v)\<in>set (replacements vars). c \<in> set k \<and> c \<notin> set v"
  shows "count_list (ReplaceVariables order s vars) c \<le> count_list s c"
  unfolding ReplaceVariables_def
proof (induction order arbitrary: s)
  case Nil
  then show ?case by simp
next
  case (Cons q order)
  show ?case
  proof (cases "map_of (replacements vars) q")
    case None
    then show ?thesis using Cons [of s] by simp
  next
    case (Some val)
    then have "(q, val) \<in> set (replacements vars)" by (rule map_of_SomeD)
    with assms have c: "c \<in> set q" "c \<notin> set val" by auto
    have "count_list (ReplaceAll s q val) c \<le> count_list s c"
      unfolding ReplaceAll_nonempty [OF c] using c by (rule replace_nonempty_count_le)
    with Cons [of "ReplaceAll s q val"] Some show ?thesis by simp
  qed
qed

lemma ReplaceVariables_count_less:
  assumes "\<forall>(k, v)\<in>set (replacements vars). c \<in> set k \<and> c \<notin> set v"
  shows "p \<in> set order \<Longrightarrow> p \<in> fst ` set (replacements vars) \<Longrightarrow> s = pre @ p @ post \<Longrightarrow>
    count_list (ReplaceVariables order s vars) c < count_list s c"
proof (induction order arbitrary: s pre post)
  case Nil
  then show ?case by simp
next
  case (Cons q order)
  let ?step = "\<lambda>placeholder result.
             case map_of (replacements vars) placeholder of
               None \<Rightarrow> result
             | Some val \<Rightarrow> ReplaceAll result placeholder val"
  have unf: "ReplaceVariables (q # order) s vars = ReplaceVariables order (?step q s) vars"
    by (simp add: ReplaceVariables_def)
  show ?case
  proof (cases "map_of (replacements vars) q")
    case None
    then have "q \<notin> fst ` set (replacements vars)" by (simp add: map_of_eq_None_iff)
    with Cons.prems have "p \<in> set order" by auto
    from Cons.IH [OF this Cons.prems(2,3)] None show ?thesis by (simp add: unf)
  next
    case (Some val)
    then have "(q, val) \<in> set (replacements vars)" by (rule map_of_SomeD)
    with assms have c: "c \<in> set q" "c \<notin> set val" by auto
    show ?thesis
    proof (cases "\<exists>pre post. s = pre @ q @ post")
      case True
      then obtain pre' post' where "s = pre' @ q @ post'" by blast
      then have "count_list (replace_nonempty s q val) c < count_list s c"
        using replace_nonempty_count_less [OF c] by blast
      moreover have "count_list (ReplaceVariables order (replace_nonempty s q val) vars) c
          \<le> count_list (replace_nonempty s q val) c"
        using assms by (rule ReplaceVariables_count_le)
      ultimately show ?thesis
        by (simp add: unf Some ReplaceAll_nonempty [OF c])
    next
      case False
      then have same: "replace_nonempty s q val = s" by (rule replace_nonempty_absent)
      have "p \<noteq> q" using False Cons.prems(3) by blast
      with Cons.prems have "p \<in> set order" by auto
      from Cons.IH [OF this Cons.prems(2,3)] show ?thesis
        by (simp add: unf Some ReplaceAll_nonempty [OF c] same)
    qed
  qed
qed

lemma replacements_dollar:
  assumes "CHR ''$'' \<notin> set (ServiceName vars) \<union> set (Variables.ContainerName vars) \<union>
      set (FirstPort vars)"
  shows "\<forall>(k, v)\<in>set (replacements vars). CHR ''$'' \<in> set k \<and> CHR ''$'' \<notin> set v"
  using assms by (simp add: replacements_def)

text \<open>
  Claim C10, as amended.  When the \<open>manifest\<close> object has the key \<open>appname\<close>,
  \<open>GetManifestAppname\<close> is the formatted value as it stands, while the value resolved
  for the manifest text is that value with the variables replaced; unless it is empty, it
  makes the first line of the manifest.  If the formatted value contains one of the three
  placeholders and none of the three variables contains the character \<open>$\<close>, the two
  differ.
\<close>

theorem GetManifestAppname_verbatim:
  "distinct (map fst manifest) \<longrightarrow> map_of manifest ''appname'' = Some a \<longrightarrow>
     GetManifestAppname manifest vars = formatManifestValue a \<and>
     lookup (resolved orders manifest vars) ''appname'' =
       ReplaceVariables (orders ''appname'') (formatManifestValue a) vars \<and>
     (ReplaceVariables (orders ''appname'') (formatManifestValue a) vars \<noteq> [] \<longrightarrow>
        (\<exists>rest. GenerateManifest orders manifest vars =
           ''appname         = '' @
           ReplaceVariables (orders ''appname'') (formatManifestValue a) vars @
           [CHR 0x0A] @ rest)) \<and>
     (iteration_order (replacements vars) (orders ''appname'') \<longrightarrow>
      placeholder \<in> fst ` set (replacements vars) \<longrightarrow>
      formatManifestValue a = pre @ placeholder @ post \<longrightarrow>
      CHR ''$'' \<notin> set (ServiceName vars) \<union> set (Variables.ContainerName vars) \<union>
        set (FirstPort vars) \<longrightarrow>
      ReplaceVariables (orders ''appname'') (formatManifestValue a) vars \<noteq>
        GetManifestAppname manifest vars)"
proof (intro impI conjI)
  assume d: "distinct (map fst manifest)" and a: "map_of manifest ''appname'' = Some a"
  show g: "GetManifestAppname manifest vars = formatManifestValue a"
    by (simp add: GetManifestAppname_def a)
  show l: "lookup (resolved orders manifest vars) ''appname'' =
       ReplaceVariables (orders ''appname'') (formatManifestValue a) vars"
    using d a by (rule lookup_resolved_appname)
  {
    assume "ReplaceVariables (orders ''appname'') (formatManifestValue a) vars \<noteq> []"
    then have "lookup (resolved orders manifest vars) ''appname'' \<noteq> []" using l by simp
    from emit_appname_first [OF distinct_resolved this]
    show "\<exists>rest. GenerateManifest orders manifest vars =
           ''appname         = '' @
           ReplaceVariables (orders ''appname'') (formatManifestValue a) vars @
           [CHR 0x0A] @ rest"
      by (simp only: GenerateManifest_def l)
  }
  {
    assume it: "iteration_order (replacements vars) (orders ''appname'')"
      and p: "placeholder \<in> fst ` set (replacements vars)"
      and v: "formatManifestValue a = pre @ placeholder @ post"
      and c: "CHR ''$'' \<notin> set (ServiceName vars) \<union> set (Variables.ContainerName vars) \<union>
        set (FirstPort vars)"
    from it p have "placeholder \<in> set (orders ''appname'')"
      by (simp add: iteration_order_def)
    from ReplaceVariables_count_less [OF replacements_dollar [OF c] this p v]
    have "ReplaceVariables (orders ''appname'') (formatManifestValue a) vars \<noteq>
        formatManifestValue a"
      by auto
    then show "ReplaceVariables (orders ''appname'') (formatManifestValue a) vars \<noteq>
        GetManifestAppname manifest vars"
      using g by simp
  }
qed

theorem GetManifestAppname_verbatim_witness:
  "GetManifestAppname [(''appname'', VString ''${SERVICE_NAME}-x'')]
     \<lparr>ServiceName = ''web'', ContainerName = ''web'', FirstPort = ''80'',
        ImageOrg = [], ImageName = []\<rparr> = ''${SERVICE_NAME}-x'' \<and>
   (\<exists>rest. GenerateManifest
       (\<lambda>key. [''${FIRST_PORT}'', ''${SERVICE_NAME}'', ''${CONTAINER_NAME}''])
       [(''appname'', VString ''${SERVICE_NAME}-x'')]
       \<lparr>ServiceName = ''web'', ContainerName = ''web'', FirstPort = ''80'',
        ImageOrg = [], ImageName = []\<rparr> =
     ''appname         = web-x'' @ [CHR 0x0A] @ rest) \<and>
   ''web-x'' \<noteq> GetManifestAppname [(''appname'', VString ''${SERVICE_NAME}-x'')]
     \<lparr>ServiceName = ''web'', ContainerName = ''web'', FirstPort = ''80'',
        ImageOrg = [], ImageName = []\<rparr>"
proof -
  let ?orders = "\<lambda>key::string. [''${FIRST_PORT}'', ''${SERVICE_NAME}'', ''${CONTAINER_NAME}'']"
  let ?m = "[(''appname'', VString ''${SERVICE_NAME}-x'')]"
  let ?v = "\<lparr>ServiceName = ''web'', ContainerName = ''web'', FirstPort = ''80'',
        ImageOrg = [], ImageName = []\<rparr>"
  have d: "distinct (map fst ?m)" by simp
  have a: "map_of ?m ''appname'' = Some (VString ''${SERVICE_NAME}-x'')" by simp
  have r: "ReplaceVariables (?orders ''appname'') (formatManifestValue (VString ''${SERVICE_NAME}-x'')) ?v
      = ''web-x''"
    by code_simp
  have it: "iteration_order (replacements ?v) (?orders ''appname'')"
    by (simp add: iteration_order_def replacements_def insert_commute)
  have p: "''${SERVICE_NAME}'' \<in> fst ` set (replacements ?v)"
    by (simp add: replacements_def)
  have v: "formatManifestValue (VString ''${SERVICE_NAME}-x'') = [] @ ''${SERVICE_NAME}'' @ ''-x''"
    by (simp add: formatManifestValue_def)
  have c: "CHR ''$'' \<notin> set (ServiceName ?v) \<union> set (Variables.ContainerName ?v) \<union>
        set (FirstPort ?v)" by simp
  note t = GetManifestAppname_verbatim [of ?m "VString ''${SERVICE_NAME}-x''" ?v ?orders
      "''${SERVICE_NAME}''" "[]" "''-x''", rule_format, OF d a]
  have ne: "ReplaceVariables (?orders ''appname'') (formatManifestValue (VString ''${SERVICE_NAME}-x'')) ?v \<noteq> []"
    by (simp only: r) simp
  from t have 1: "GetManifestAppname ?m ?v = ''${SERVICE_NAME}-x''"
    by (simp add: formatManifestValue_def)
  from t ne have 2: "\<exists>rest. GenerateManifest ?orders ?m ?v =
     ''appname         = '' @ ReplaceVariables (?orders ''appname'') (formatManifestValue (VString ''${SERVICE_NAME}-x'')) ?v @ [CHR 0x0A] @ rest"
    by blast
  from t it p v c have 3: "ReplaceVariables (?orders ''appname'') (formatManifestValue (VString ''${SERVICE_NAME}-x'')) ?v \<noteq>
        GetManifestAppname ?m ?v"
    by blast
  from 1 2 3 show ?thesis unfolding r by simp
qed

text \<open>
  Without the condition on the variables the two can agree: a compose file that takes its
  container name from the environment, \<open>container_name: ${CONTAINER_NAME}\<close>, makes the
  variable equal to its own placeholder, and replacing changes nothing.
\<close>

theorem GetManifestAppname_same_counterexample:
  "ExtractVariables
     [(''web'', \<lparr>Image = [], ContainerName = ''${CONTAINER_NAME}'', Ports = [''80:80'']\<rparr>)] =
     Some \<lparr>ServiceName = ''web'', ContainerName = ''${CONTAINER_NAME}'', FirstPort = ''80'',
        ImageOrg = [], ImageName = []\<rparr> \<and>
   GetManifestAppname [(''appname'', VString ''${CONTAINER_NAME}'')]
     \<lparr>ServiceName = ''web'', ContainerName = ''${CONTAINER_NAME}'', FirstPort = ''80'',
        ImageOrg = [], ImageName = []\<rparr> = ''${CONTAINER_NAME}'' \<and>
   GenerateManifest
     (\<lambda>key. [''${FIRST_PORT}'', ''${SERVICE_NAME}'', ''${CONTAINER_NAME}''])
     [(''appname'', VString ''${CONTAINER_NAME}'')]
     \<lparr>ServiceName = ''web'', ContainerName = ''${CONTAINER_NAME}'', FirstPort = ''80'',
        ImageOrg = [], ImageName = []\<rparr> =
     ''appname         = ${CONTAINER_NAME}'' @ [CHR 0x0A] @
     ''version         = 1.0.0'' @ [CHR 0x0A] @
     ''display_name    = web'' @ [CHR 0x0A] @
     ''desc            = web'' @ [CHR 0x0A] @
     ''arch            = x86_64'' @ [CHR 0x0A] @
     ''source          = thirdparty'' @ [CHR 0x0A] @
     ''desktop_uidir   = ui'' @ [CHR 0x0A] @
     ''desktop_applaunchname = ${CONTAINER_NAME}.Application'' @ [CHR 0x0A] @
     ''service_port    = 80'' @ [CHR 0x0A]"
  by code_simp

section \<open>Squaring the icon\<close>

lemma Pt_sel [simp]: "X (Pt x y) = x" "Y (Pt x y) = y"
  by (simp_all add: Pt_def)

lemma Draw_Rect_of [simp]: "Rect_of (Draw dst r src sp op) = Rect_of dst"
  by (simp add: Draw_def Let_def)

lemma channel_Src_zero [simp]: "channel Src d 0 0 = 0"
  by (simp add: channel_def)

lemma narrow_ucast:
  "(ucast (drop_bit 8 (ucast (s :: 16 word) :: 32 word)) :: 8 word) = ucast (drop_bit 8 s)"
  by (rule bit_word_eqI) (auto simp: bit_simps)

lemma channel_Over_zero: "channel Over 0 s sa = ucast (drop_bit 8 s)"
proof -
  have "unat s < 2 ^ 16"
    using unsigned_less [of s] by simp
  moreover have "unat (ucast s :: 32 word) = take_bit 32 (unat s)"
    by (simp add: unsigned_ucast_eq)
  ultimately have "unat (ucast s :: 32 word) < 2 ^ 16"
    by (simp add: take_bit_nat_eq_self)
  then have "unat (ucast s :: 32 word) * unat (0xFFFF :: 32 word) < 2 ^ LENGTH(32)"
    by simp
  then have "(ucast s :: 32 word) * 0xFFFF div 0xFFFF = ucast s"
    by (intro word_div_mult) simp_all
  then show ?thesis
    by (simp add: channel_def narrow_ucast)
qed

lemma compose_Over_zero:
  "compose Over (0, 0, 0, 0) (r, g, b, a) =
     (ucast (drop_bit 8 r), ucast (drop_bit 8 g), ucast (drop_bit 8 b), ucast (drop_bit 8 a))"
  by (simp add: compose_def channel_Over_zero)

lemma Draw_clear:
  assumes "Pix dst = (\<lambda>x y. (0, 0, 0, 0))"
  shows "Pix (Draw dst r (Uniform Transparent) sp Src) = (\<lambda>x y. (0, 0, 0, 0))"
  by (auto simp: Draw_def Let_def assms compose_def Uniform_def Transparent_def fun_eq_iff)

lemma Rect_ordered:
  "x0 \<le> x1 \<Longrightarrow> y0 \<le> y1 \<Longrightarrow> Rect x0 y0 x1 y1 = \<lparr>Min_pt = Pt x0 y0, Max_pt = Pt x1 y1\<rparr>"
  by (simp add: Rect_def)

lemma Intersect_inside:
  assumes "X (Min_pt s) \<le> x0" "Y (Min_pt s) \<le> y0" "x1 \<le> X (Max_pt s)" "y1 \<le> Y (Max_pt s)"
    and "x0 < x1" "y0 < y1"
  shows "Intersect \<lparr>Min_pt = Pt x0 y0, Max_pt = Pt x1 y1\<rparr> s =
     \<lparr>Min_pt = Pt x0 y0, Max_pt = Pt x1 y1\<rparr>"
  using assms by (simp add: Intersect_def Let_def Empty_def)

lemma Intersect_empty:
  assumes "x1 \<le> x0 \<or> y1 \<le> y0"
  shows "Intersect \<lparr>Min_pt = Pt x0 y0, Max_pt = Pt x1 y1\<rparr> s = ZR"
  using assms by (auto simp: Intersect_def Let_def Empty_def)

lemma Intersect_ZR: "Intersect ZR s = ZR"
  by (auto simp: Intersect_def Let_def Empty_def ZR_def)

lemma Empty_ZR: "Empty ZR"
  by (simp add: Empty_def ZR_def)

lemma Draw_centered:
  assumes dst: "Rect_of dst = \<lparr>Min_pt = Pt 0 0, Max_pt = Pt S S\<rparr>"
    and pix: "Pix dst = (\<lambda>x y. (0, 0, 0, 0))"
    and off: "0 \<le> ox" "0 \<le> oy" "ox + W \<le> S" "oy + H \<le> S"
    and size: "0 \<le> W" "0 \<le> H"
    and src: "Bounds src = \<lparr>Min_pt = Pt x0 y0, Max_pt = Pt (x0 + W) (y0 + H)\<rparr>"
  shows "Pix (Draw dst \<lparr>Min_pt = Pt ox oy, Max_pt = Pt (ox + W) (oy + H)\<rparr> src (Pt x0 y0) Over) x y =
     (if ox \<le> x \<and> x < ox + W \<and> oy \<le> y \<and> y < oy + H
      then compose Over (0, 0, 0, 0) (At src (x0 + (x - ox)) (y0 + (y - oy)))
      else (0, 0, 0, 0))"
proof (cases "0 < W \<and> 0 < H")
  case True
  let ?r = "\<lparr>Min_pt = Pt ox oy, Max_pt = Pt (ox + W) (oy + H)\<rparr>"
  have 1: "Intersect ?r (Rect_of dst) = ?r"
    using off True by (intro Intersect_inside) (simp_all add: dst)
  have 2: "Add (Bounds src) (Sub (Pt ox oy) (Pt x0 y0)) = ?r"
    by (simp add: Add_def Sub_def src)
  have 3: "Intersect ?r ?r = ?r"
    using True by (intro Intersect_inside) simp_all
  have ne: "\<not> Empty ?r" using True by (simp add: Empty_def)
  show ?thesis
    using ne by (simp add: Draw_def Let_def 1 2 3 pix In_def)
next
  case False
  let ?r = "\<lparr>Min_pt = Pt ox oy, Max_pt = Pt (ox + W) (oy + H)\<rparr>"
  have e: "ox + W \<le> ox \<or> oy + H \<le> oy" using False size by auto
  have 1: "Intersect ?r (Rect_of dst) = ZR"
    using e by (rule Intersect_empty)
  have n: "(ox \<le> x \<and> x < ox + W \<and> oy \<le> y \<and> y < oy + H) = False" using e by auto
  show ?thesis
    unfolding n by (simp add: Draw_def Let_def 1 Intersect_ZR Empty_ZR pix)
qed

text \<open>
  Claim C8.  An image whose width and height are equal is returned as it is.  An image of
  \<open>W\<close> by \<open>H\<close> pixels with \<open>W \<noteq> H\<close> (its bounds well formed, with the corner
  \<open>(x0, y0)\<close>) becomes a canvas with the bounds \<open>(0, 0)\<close> to \<open>(S, S)\<close>, where \<open>S\<close> is
  the larger of \<open>W\<close> and \<open>H\<close>.  The pixel \<open>(x, y)\<close> of the source, counted from its
  corner, is found at \<open>((S - W) div 2 + x, (S - H) div 2 + y)\<close>, each of its channels
  with the eight high bits that an \<open>*image.RGBA\<close> keeps; every pixel outside that
  rectangle is transparent.
\<close>

theorem squareImage_canvas:
  "(Dx (Bounds src) = Dy (Bounds src) \<longrightarrow> squareImage src = src) \<and>
   (Bounds src = \<lparr>Min_pt = Pt x0 y0, Max_pt = Pt (x0 + W) (y0 + H)\<rparr> \<longrightarrow>
    0 \<le> W \<longrightarrow> 0 \<le> H \<longrightarrow> W \<noteq> H \<longrightarrow> S = max W H \<longrightarrow>
      Bounds (squareImage src) = \<lparr>Min_pt = Pt 0 0, Max_pt = Pt S S\<rparr> \<and>
      (\<forall>x y. 0 \<le> x \<and> x < W \<and> 0 \<le> y \<and> y < H \<longrightarrow>
         At (squareImage src) ((S - W) div 2 + x) ((S - H) div 2 + y) =
           (case At src (x0 + x) (y0 + y) of
              (r, g, b, a) \<Rightarrow>
                (widen (ucast (drop_bit 8 r)), widen (ucast (drop_bit 8 g)),
                 widen (ucast (drop_bit 8 b)), widen (ucast (drop_bit 8 a))))) \<and>
      (\<forall>x y. \<not> ((S - W) div 2 \<le> x \<and> x < (S - W) div 2 + W \<and>
                (S - H) div 2 \<le> y \<and> y < (S - H) div 2 + H) \<longrightarrow>
         At (squareImage src) x y = Transparent))"
proof (intro conjI impI)
  assume "Dx (Bounds src) = Dy (Bounds src)"
  then show "squareImage src = src" by (simp add: squareImage_def Let_def)
next
  assume b: "Bounds src = \<lparr>Min_pt = Pt x0 y0, Max_pt = Pt (x0 + W) (y0 + H)\<rparr>"
    and W: "0 \<le> W" and H: "0 \<le> H" and ne: "W \<noteq> H" and S: "S = max W H"
  define ox where "ox = (S - W) div 2"
  define oy where "oy = (S - H) div 2"
  have S0: "0 \<le> S" "W \<le> S" "H \<le> S" using W H S by auto
  have off: "0 \<le> ox" "0 \<le> oy" "ox + W \<le> S" "oy + H \<le> S"
    using S0 by (auto simp: ox_def oy_def)
  have dx: "Dx (Bounds src) = W" and dy: "Dy (Bounds src) = H"
    by (simp_all add: b Dx_def Dy_def)
  have size: "(if H > W then H else W) = S" using S by auto
  have sd: "(S - W) sdiv 2 = ox" "(S - H) sdiv 2 = oy"
    using S0 by (simp_all add: ox_def oy_def sdiv_int_div_0 signed_divide_int_def sgn_if)
  define dst1 where "dst1 = Draw (NewRGBA (Rect 0 0 S S)) (Rect_of (NewRGBA (Rect 0 0 S S)))
      (Uniform Transparent) (Pt 0 0) Src"
  have r1: "Rect_of dst1 = \<lparr>Min_pt = Pt 0 0, Max_pt = Pt S S\<rparr>"
    using S0 by (simp add: dst1_def NewRGBA_def Rect_ordered)
  have p1: "Pix dst1 = (\<lambda>x y. (0, 0, 0, 0))"
    unfolding dst1_def by (rule Draw_clear) (simp add: NewRGBA_def)
  define dst2 where "dst2 = Draw dst1 \<lparr>Min_pt = Pt ox oy, Max_pt = Pt (ox + W) (oy + H)\<rparr>
      src (Pt x0 y0) Over"
  have rect: "Rect ox oy (ox + W) (oy + H) = \<lparr>Min_pt = Pt ox oy, Max_pt = Pt (ox + W) (oy + H)\<rparr>"
    using W H by (simp add: Rect_ordered)
  have mn: "Min_pt (Bounds src) = Pt x0 y0" by (simp add: b)
  have sq: "squareImage src = as_Image dst2"
  proof (cases "W < H")
    case True
    then have "S = H" using S by simp
    with True ne sd rect show ?thesis
      by (simp add: squareImage_def Let_def dx dy dst1_def dst2_def mn)
  next
    case False
    then have "S = W" using S by simp
    with False ne sd rect show ?thesis
      by (simp add: squareImage_def Let_def dx dy dst1_def dst2_def mn)
  qed
  have pix: "\<And>x y. Pix dst2 x y =
     (if ox \<le> x \<and> x < ox + W \<and> oy \<le> y \<and> y < oy + H
      then compose Over (0, 0, 0, 0) (At src (x0 + (x - ox)) (y0 + (y - oy)))
      else (0, 0, 0, 0))"
    unfolding dst2_def by (rule Draw_centered [OF r1 p1 off W H b])
  have r2: "Rect_of dst2 = \<lparr>Min_pt = Pt 0 0, Max_pt = Pt S S\<rparr>"
    by (simp add: dst2_def r1)
  show "Bounds (squareImage src) = \<lparr>Min_pt = Pt 0 0, Max_pt = Pt S S\<rparr>"
    by (simp add: sq as_Image_def r2)
  show "\<forall>x y. 0 \<le> x \<and> x < W \<and> 0 \<le> y \<and> y < H \<longrightarrow>
         At (squareImage src) ((S - W) div 2 + x) ((S - H) div 2 + y) =
           (case At src (x0 + x) (y0 + y) of
              (r, g, b, a) \<Rightarrow>
                (widen (ucast (drop_bit 8 r)), widen (ucast (drop_bit 8 g)),
                 widen (ucast (drop_bit 8 b)), widen (ucast (drop_bit 8 a))))"
  proof (intro allI impI)
    fix x y assume xy: "0 \<le> x \<and> x < W \<and> 0 \<le> y \<and> y < H"
    obtain r g bl a where c: "At src (x0 + x) (y0 + y) = (r, g, bl, a)"
      by (metis prod_cases4)
    have "In (ox + x) (oy + y) (Rect_of dst2)"
      using xy off by (simp add: In_def r2)
    then show "At (squareImage src) ((S - W) div 2 + x) ((S - H) div 2 + y) =
           (case At src (x0 + x) (y0 + y) of
              (r, g, b, a) \<Rightarrow>
                (widen (ucast (drop_bit 8 r)), widen (ucast (drop_bit 8 g)),
                 widen (ucast (drop_bit 8 b)), widen (ucast (drop_bit 8 a))))"
      using xy by (simp add: sq as_Image_def RGBA_At_def pix c compose_Over_zero
          ox_def [symmetric] oy_def [symmetric])
  qed
  show "\<forall>x y. \<not> ((S - W) div 2 \<le> x \<and> x < (S - W) div 2 + W \<and>
                (S - H) div 2 \<le> y \<and> y < (S - H) div 2 + H) \<longrightarrow>
         At (squareImage src) x y = Transparent"
    by (simp add: sq as_Image_def RGBA_At_def pix ox_def [symmetric] oy_def [symmetric]
        Transparent_def widen_def)
qed

theorem squareImage_canvas_witness:
  "squareImage (example_image\<lparr>Bounds := \<lparr>Min_pt = Pt 10 20, Max_pt = Pt 13 23\<rparr>\<rparr>) =
     example_image\<lparr>Bounds := \<lparr>Min_pt = Pt 10 20, Max_pt = Pt 13 23\<rparr>\<rparr> \<and>
   Bounds (squareImage example_image) = \<lparr>Min_pt = Pt 0 0, Max_pt = Pt 3 3\<rparr> \<and>
   At (squareImage example_image) 2 1 = (0xFFFF, 0x8080, 0x0101, 0xFFFF) \<and>
   At (squareImage example_image) 2 0 = Transparent"
proof -
  let ?sq = "example_image\<lparr>Bounds := \<lparr>Min_pt = Pt 10 20, Max_pt = Pt 13 23\<rparr>\<rparr>"
  have "Dx (Bounds ?sq) = Dy (Bounds ?sq)" by (simp add: Dx_def Dy_def Pt_def)
  with squareImage_canvas [of ?sq] have 1: "squareImage ?sq = ?sq" by blast
  have b: "Bounds example_image = \<lparr>Min_pt = Pt 10 20, Max_pt = Pt (10 + 3) (20 + 1)\<rparr>"
    by (simp add: example_image_def)
  note t = squareImage_canvas [of example_image 10 20 3 1 3, THEN conjunct2, rule_format, OF b]
  have h: "(0::int) \<le> 3" "(0::int) \<le> 1" "(3::int) \<noteq> 1" "(3::int) = max 3 1" by simp_all
  from t [OF h] have 2: "Bounds (squareImage example_image) = \<lparr>Min_pt = Pt 0 0, Max_pt = Pt 3 3\<rparr>"
    and 3: "\<forall>x y. 0 \<le> x \<and> x < 3 \<and> 0 \<le> y \<and> y < 1 \<longrightarrow>
         At (squareImage example_image) ((3 - 3) div 2 + x) ((3 - 1) div 2 + y) =
           (case At example_image (10 + x) (20 + y) of
              (r, g, b, a) \<Rightarrow>
                (widen (ucast (drop_bit 8 r)), widen (ucast (drop_bit 8 g)),
                 widen (ucast (drop_bit 8 b)), widen (ucast (drop_bit 8 a))))"
    and 4: "\<forall>x y. \<not> ((3 - 3) div 2 \<le> x \<and> x < (3 - 3) div 2 + 3 \<and>
                (3 - 1) div 2 \<le> y \<and> y < (3 - 1) div 2 + 1) \<longrightarrow>
         At (squareImage example_image) x y = Transparent"
    by blast+
  from 3 [rule_format, of 2 0] have 5: "At (squareImage example_image) 2 1 = (0xFFFF, 0x8080, 0x0101, 0xFFFF)"
    by (simp add: example_image_def widen_def)
  from 4 [rule_format, of 2 0] have 6: "At (squareImage example_image) 2 0 = Transparent"
    by simp
  from 1 2 5 6 show ?thesis by blast
qed

section \<open>Failures of the icon processor\<close>

lemma ProcessIcons_swallows_ReadDir:
  "ReadDir e (InputDir b) = Inl err \<Longrightarrow> ProcessIcons e b fs = Inr fs"
  by (simp add: ProcessIcons_def FindIcon_def)

lemma ProcessIcons_propagates:
  "FindIcon e b = Inr iconPath \<Longrightarrow> Open e iconPath = Inl err \<Longrightarrow>
     ProcessIcons e b fs = Inl (Wrap ''failed to open icon'' err)"
  "FindIcon e b = Inr iconPath \<Longrightarrow> Open e iconPath = Inr srcImg \<Longrightarrow>
     ProcessIcons e b fs = CopyIcons e b (squareImage srcImg) fs"
  by (simp_all add: ProcessIcons_def)

text \<open>
  Claim C6.  \<open>FindIcon\<close> reports a failure to read the input directory as an error of
  its own, but \<open>ProcessIcons\<close> treats every error of \<open>FindIcon\<close> as the absence of an
  icon and returns \<open>nil\<close>: with an input directory that cannot be listed the build goes
  on without icons and without an error.
\<close>

theorem ProcessIcons_read_failure:
  "FindIcon (example_env\<lparr>ReadDir := (\<lambda>dir. Inl (New ''permission denied''))\<rparr>) example_builder =
     Inl (Wrap ''failed to read input directory'' (New ''permission denied'')) \<and>
   ProcessIcons (example_env\<lparr>ReadDir := (\<lambda>dir. Inl (New ''permission denied''))\<rparr>)
     example_builder Map.empty = Inr Map.empty"
  by (simp add: FindIcon_def ProcessIcons_swallows_ReadDir)

section \<open>The names of the icon files\<close>

lemma ReplaceAll_icon:
  "ReplaceAll ''images/icon_{0}.png'' ''{0}'' sz = ''images/icon_'' @ sz @ ''.png''"
proof (cases "sz = ''{0}''")
  case True
  then show ?thesis by (simp add: ReplaceAll_def)
next
  case False
  then have "ReplaceAll ''images/icon_{0}.png'' ''{0}'' sz =
      replace_nonempty ''images/icon_{0}.png'' ''{0}'' sz"
    by (auto simp: ReplaceAll_def)
  also have "\<dots> = ''images/icon_'' @ sz @ ''.png''"
    by (simp add: replace_nonempty.simps HasPrefix_def)
  finally show ?thesis .
qed

lemma dom_saveIcon:
  "saveIcon e img destPath fs = Inr fs' \<Longrightarrow> dom fs' = insert destPath (dom fs)"
  by (auto simp: saveIcon_def split: option.splits sum.splits)

lemma dom_copy_icons:
  "copy_icons e appDir srcImg table fs = Inr fs' \<Longrightarrow>
   dom fs' = dom fs \<union> (\<lambda>(w, h, elems). filepath_Join (appDir # elems)) ` set table"
proof (induction table arbitrary: fs)
  case Nil
  then show ?case by simp
next
  case (Cons entry table)
  obtain w h elems where entry: "entry = (w, h, elems)" by (cases entry)
  from Cons.prems obtain fs1 where
    s: "saveIcon e (ResizeIcon e srcImg w h) (filepath_Join (appDir # elems)) fs = Inr fs1"
    and r: "copy_icons e appDir srcImg table fs1 = Inr fs'"
    by (auto simp: entry Let_def split: sum.splits)
  from Cons.IH [OF r] dom_saveIcon [OF s] show ?case
    by (auto simp: entry)
qed

text \<open>
  Claim C9.  The default entry of the UI configuration has the icon
  \<open>images/icon_{0}.png\<close>, and this is the string passed to the JSON encoder.  A
  successful \<open>CopyIcons\<close> adds exactly four files, of which the two in the directory of
  the UI images are \<open>icon-64.png\<close> and \<open>icon-256.png\<close>.  Whatever the size \<open>sz\<close> put
  in the place of \<open>{0}\<close>, the file that the template names below \<open>app/ui\<close> is none
  of the files of the icon table.
\<close>

theorem default_icon_name:
  "Icon (default_entry vars) = ''images/icon_{0}.png'' \<and>
   GenerateDefaultUIConfig e vars =
     marshalJSON e
       (JObject [(''.url'', JObject [(ServiceName vars @ ''.Application'',
          JObject
            ([(''title'', JString (ServiceName vars)),
              (''icon'', JString ''images/icon_{0}.png''),
              (''type'', JString ''url''), (''protocol'', JString ''http'')] @
             (if FirstPort vars \<noteq> [] then [(''port'', JString (FirstPort vars))] else []) @
             [(''url'', JString ''/''), (''allUsers'', JBool True)]))])]) \<and>
   (CopyIcons e b srcImg fs = Inr fs' \<longrightarrow>
      dom fs' = dom fs \<union>
        {filepath_Join [GetAppDir b, ''ICON.PNG''],
         filepath_Join [GetAppDir b, ''ICON_256.PNG''],
         filepath_Join [GetAppDir b, ''app'', ''ui'', ''images'', ''icon-64.png''],
         filepath_Join [GetAppDir b, ''app'', ''ui'', ''images'', ''icon-256.png'']}) \<and>
   (\<forall>(w, h, elems)\<in>set icons.
      Join elems ''/'' \<noteq> ''app/ui/'' @ ReplaceAll (Icon (default_entry vars)) ''{0}'' sz)"
proof (intro conjI impI)
  show "Icon (default_entry vars) = ''images/icon_{0}.png''"
    by (simp add: default_entry_def)
  show "GenerateDefaultUIConfig e vars =
     marshalJSON e
       (JObject [(''.url'', JObject [(ServiceName vars @ ''.Application'',
          JObject
            ([(''title'', JString (ServiceName vars)),
              (''icon'', JString ''images/icon_{0}.png''),
              (''type'', JString ''url''), (''protocol'', JString ''http'')] @
             (if FirstPort vars \<noteq> [] then [(''port'', JString (FirstPort vars))] else []) @
             [(''url'', JString ''/''), (''allUsers'', JBool True)]))])])"
    by (simp add: GenerateDefaultUIConfig_def default_entry_def UIConfigEntry_json_def)
  show "\<forall>(w, h, elems)\<in>set icons.
      Join elems ''/'' \<noteq> ''app/ui/'' @ ReplaceAll (Icon (default_entry vars)) ''{0}'' sz"
    by (simp add: icons_def default_entry_def ReplaceAll_icon)
next
  assume "CopyIcons e b srcImg fs = Inr fs'"
  then have "dom fs' = dom fs \<union>
      (\<lambda>(w, h, elems). filepath_Join (GetAppDir b # elems)) ` set icons"
    unfolding CopyIcons_def by (rule dom_copy_icons)
  then show "dom fs' = dom fs \<union>
        {filepath_Join [GetAppDir b, ''ICON.PNG''],
         filepath_Join [GetAppDir b, ''ICON_256.PNG''],
         filepath_Join [GetAppDir b, ''app'', ''ui'', ''images'', ''icon-64.png''],
         filepath_Join [GetAppDir b, ''app'', ''ui'', ''images'', ''icon-256.png'']}"
    by (simp add: icons_def insert_commute Un_commute)
qed

theorem default_icon_name_witness:
  "CopyIcons example_env example_builder example_image Map.empty =
     Inr [filepath_Join [GetAppDir example_builder, ''ICON.PNG''] \<mapsto> ''PNG'',
          filepath_Join [GetAppDir example_builder, ''ICON_256.PNG''] \<mapsto> ''PNG'',
          filepath_Join [GetAppDir example_builder, ''app'', ''ui'', ''images'', ''icon-64.png''] \<mapsto> ''PNG'',
          filepath_Join [GetAppDir example_builder, ''app'', ''ui'', ''images'', ''icon-256.png''] \<mapsto> ''PNG''] \<and>
   filepath_Join [GetAppDir example_builder, ''app'', ''ui'', ''images'', ''icon-64.png''] =
     ''dist/web/app/ui/images/icon-64.png'' \<and>
   dom [filepath_Join [GetAppDir example_builder, ''ICON.PNG''] \<mapsto> ''PNG'',
        filepath_Join [GetAppDir example_builder, ''ICON_256.PNG''] \<mapsto> ''PNG'',
        filepath_Join [GetAppDir example_builder, ''app'', ''ui'', ''images'', ''icon-64.png''] \<mapsto> ''PNG'',
        filepath_Join [GetAppDir example_builder, ''app'', ''ui'', ''images'', ''icon-256.png''] \<mapsto> ''PNG''] =
     dom (Map.empty :: files) \<union>
        {filepath_Join [GetAppDir example_builder, ''ICON.PNG''],
         filepath_Join [GetAppDir example_builder, ''ICON_256.PNG''],
         filepath_Join [GetAppDir example_builder, ''app'', ''ui'', ''images'', ''icon-64.png''],
         filepath_Join [GetAppDir example_builder, ''app'', ''ui'', ''images'', ''icon-256.png'']} \<and>
   ReplaceAll (Icon (default_entry (Variables example_builder))) ''{0}'' ''64'' =
     ''images/icon_64.png'' \<and>
   map (\<lambda>(w, h, elems). Join elems ''/'' = ''app/ui/images/icon_64.png'') icons =
     [False, False, False, False]"
proof -
  let ?fs = "[filepath_Join [GetAppDir example_builder, ''ICON.PNG''] \<mapsto> ''PNG'',
          filepath_Join [GetAppDir example_builder, ''ICON_256.PNG''] \<mapsto> ''PNG'',
          filepath_Join [GetAppDir example_builder, ''app'', ''ui'', ''images'', ''icon-64.png''] \<mapsto> ''PNG'',
          filepath_Join [GetAppDir example_builder, ''app'', ''ui'', ''images'', ''icon-256.png''] \<mapsto> ''PNG'']"
  note t = default_icon_name [of "Variables example_builder" example_env example_builder
      example_image Map.empty ?fs "''64''"]
  have c: "CopyIcons example_env example_builder example_image Map.empty = Inr ?fs"
    by (simp add: CopyIcons_def icons_def saveIcon_def ResizeIcon_def example_env_def)
  have p: "filepath_Join [GetAppDir example_builder, ''app'', ''ui'', ''images'', ''icon-64.png''] =
     ''dist/web/app/ui/images/icon-64.png''"
    by code_simp
  have i: "Icon (default_entry (Variables example_builder)) = ''images/icon_{0}.png''"
    by (rule t [THEN conjunct1])
  have r: "ReplaceAll ''images/icon_{0}.png'' ''{0}'' ''64'' = ''images/icon_64.png''"
    by code_simp
  have r': "ReplaceAll (Icon (default_entry (Variables example_builder))) ''{0}'' ''64'' =
     ''images/icon_64.png''"
    unfolding i by (rule r)
  have "\<forall>(w, h, elems)\<in>set icons.
      Join elems ''/'' \<noteq> ''app/ui/'' @ ReplaceAll (Icon (default_entry (Variables example_builder))) ''{0}'' ''64''"
    by (rule t [THEN conjunct2, THEN conjunct2, THEN conjunct2])
  then have "\<forall>(w, h, elems)\<in>set icons. Join elems ''/'' \<noteq> ''app/ui/images/icon_64.png''"
    unfolding r' by simp
  then have q: "map (\<lambda>(w, h, elems). Join elems ''/'' = ''app/ui/images/icon_64.png'') icons =
     [False, False, False, False]"
    by (simp add: icons_def)
  note d = t [THEN conjunct2, THEN conjunct2, THEN conjunct1, rule_format, OF c]
  show ?thesis by (intro conjI) (rule c p d r' q)+
qed

end
